theory Spec2Isabelle
  imports Complex_Main
begin

section \<open>Conventions of the embedding\<close>

text \<open>
  The program is a browser application written in TypeScript. Its functions are embedded
  one by one, under their own names.

  \<^item> A JavaScript \<open>number\<close> is a real number: arithmetic is exact, rounding of IEEE doubles
    is not modelled. File sizes, pixel dimensions, loop counters and line counts are
    natural numbers or integers, as they are in the program. Every theorem that passes
    through a division states the hypotheses that keep the divisor positive, so that no
    statement relies on the value HOL gives to a division by zero (where JavaScript has
    \<open>Infinity\<close> or \<open>NaN\<close>).
  \<^item> A JavaScript string is a \<open>string\<close>, a list of 8-bit characters: the model reads file
    names and file contents as ASCII/byte strings.
  \<^item> \<open>throw new Error(msg)\<close> and a rejected promise are the value \<open>Inl (Error msg)\<close>; a
    function that may throw returns \<open>error + 'a\<close>.
  \<^item> The progress callback \<open>onProgress\<close> is a trace: every converter returns the list of
    the values it reported, in order, next to its outcome. A converter that throws
    returns the values reported before the throw.
  \<^item> The third-party primitives (FileReader, image decoding, canvas, html2canvas, JSZip,
    the text wrapping of jsPDF) are the fields of an environment record \<open>env\<close>; jsPDF's
    page accumulation itself is the explicit document state \<open>pdf\<close>.
\<close>

type_synonym number = real

datatype error = Error string

section \<open>Strings\<close>

text \<open>\<open>String(n)\<close> for a non-negative integer: its decimal digits.\<close>

definition digit_char :: "nat \<Rightarrow> char" where
  "digit_char d = ''0123456789'' ! d"

fun show_nat :: "nat \<Rightarrow> string" where
  "show_nat n = (if n < 10 then [digit_char n] else show_nat (n div 10) @ [digit_char (n mod 10)])"

declare show_nat.simps [simp del]

text \<open>
  \<open>x.toFixed(1)\<close> for \<open>0 \<le> x < 1e21\<close>: the integer \<open>n\<close> with \<open>n / 10\<close> nearest to \<open>x\<close>, the
  larger one on a tie, printed with one digit after the point.
\<close>

definition toFixed1 :: "number \<Rightarrow> string" where
  "toFixed1 x = (let n = nat \<lfloor>10 * x + 1 / 2\<rfloor> in show_nat (n div 10) @ ''.'' @ show_nat (n mod 10))"

text \<open>\<open>s.toLowerCase()\<close> on ASCII.\<close>

definition lower_char :: "char \<Rightarrow> char" where
  "lower_char c =
     (case map_of (zip ''ABCDEFGHIJKLMNOPQRSTUVWXYZ'' ''abcdefghijklmnopqrstuvwxyz'') c of
        Some l \<Rightarrow> l
      | None \<Rightarrow> c)"

definition toLowerCase :: "string \<Rightarrow> string" where
  "toLowerCase s = map lower_char s"

text \<open>\<open>s.split(c)\<close> for a one-character separator: never empty, \<open>''''.split(c) = ['''']\<close>.\<close>

fun split_js :: "char \<Rightarrow> string \<Rightarrow> string list" where
  "split_js c [] = [[]]"
| "split_js c (x # xs) =
     (if x = c then [] # split_js c xs
      else (case split_js c xs of [] \<Rightarrow> [[x]] | p # ps \<Rightarrow> (x # p) # ps))"

text \<open>\<open>parts.join(sep)\<close>.\<close>

fun join_js :: "string \<Rightarrow> string list \<Rightarrow> string" where
  "join_js sep [] = []"
| "join_js sep [p] = p"
| "join_js sep (p # q # ps) = p @ sep @ join_js sep (q # ps)"

text \<open>\<open>s.startsWith(p)\<close> and \<open>s.endsWith(p)\<close>.\<close>

definition startsWith :: "string \<Rightarrow> string \<Rightarrow> bool" where
  "startsWith s p = (take (length p) s = p)"

definition endsWith :: "string \<Rightarrow> string \<Rightarrow> bool" where
  "endsWith s p = (length p \<le> length s \<and> drop (length s - length p) s = p)"

text \<open>
  \<open>s.replace(pat, rep)\<close> with a string pattern: the first occurrence only, and \<open>rep\<close>
  without \<open>$\<close> patterns.
\<close>

fun replace_first :: "string \<Rightarrow> string \<Rightarrow> string \<Rightarrow> string" where
  "replace_first pat rep [] = (if pat = [] then rep else [])"
| "replace_first pat rep (c # cs) =
     (if startsWith (c # cs) pat then rep @ drop (length pat) (c # cs)
      else c # replace_first pat rep cs)"

text \<open>\<open>s.includes(p)\<close>: the text \<open>p\<close> occurs in \<open>s\<close>.\<close>

fun includes_js :: "string \<Rightarrow> string \<Rightarrow> bool" where
  "includes_js [] p = (p = [])"
| "includes_js (c # cs) p = (startsWith (c # cs) p \<or> includes_js cs p)"

text \<open>\<open>s.replace(/c/g, rep)\<close> for a single literal character \<open>c\<close>.\<close>

definition replace_char_all :: "char \<Rightarrow> string \<Rightarrow> string \<Rightarrow> string" where
  "replace_char_all c rep s = concat (map (\<lambda>x. if x = c then rep else [x]) s)"

text \<open>
  \<open>name.replace(/\.[^.]+$/, '''')\<close>: the match is the last dot together with what follows,
  when something follows it; a name without a dot, or ending in a dot, is unchanged.
\<close>

definition remove_extension :: "string \<Rightarrow> string" where
  "remove_extension nm =
     (let tl = takeWhile (\<lambda>c. c \<noteq> CHR ''.'') (rev nm)
      in if length tl = length nm \<or> tl = [] then nm
         else take (length nm - length tl - 1) nm)"

section \<open>types.ts\<close>

text \<open>
  The six strings of the type \<open>FileType\<close>. The two tables below are plain objects, and a
  lookup \<open>table[key]\<close> in a plain object also finds the properties that every object
  inherits from \<open>Object.prototype\<close>: \<open>Inherited key\<close> is the value found there (a function
  or an object, no string of \<open>FileType\<close>), which the classifier then returns as it is.
\<close>

datatype FileType = Image | Text | Html | Markdown | Docx | Unknown | Inherited string

text \<open>
  A browser \<open>File\<close>: its name, its declared MIME type, its size in bytes and its content.
\<close>

record File =
  file_name :: string
  file_type :: string
  file_size :: nat
  file_data :: string

datatype PageSize = A4 | letter | fit

record ConversionOptions =
  pageSize :: PageSize
  quality :: number
  margin :: number

record ValidationResult =
  valid :: bool
  error :: "string option"
  vtype :: "FileType option"

definition SUPPORTED_MIME_TYPES :: "(string \<times> FileType) list" where
  "SUPPORTED_MIME_TYPES =
    [(''image/png'', Image), (''image/jpeg'', Image), (''image/jpg'', Image),
     (''image/gif'', Image), (''image/tiff'', Image), (''image/webp'', Image),
     (''text/plain'', Text), (''text/html'', Html), (''text/markdown'', Markdown),
     (''application/vnd.openxmlformats-officedocument.wordprocessingml.document'', Docx)]"

definition EXTENSION_TO_TYPE :: "(string \<times> FileType) list" where
  "EXTENSION_TO_TYPE =
    [(''.png'', Image), (''.jpg'', Image), (''.jpeg'', Image), (''.gif'', Image),
     (''.tiff'', Image), (''.tif'', Image), (''.webp'', Image), (''.txt'', Text),
     (''.html'', Html), (''.htm'', Html), (''.md'', Markdown), (''.markdown'', Markdown),
     (''.docx'', Docx)]"

text \<open>The names of the properties of \<open>Object.prototype\<close>; the value of each is truthy.\<close>

definition OBJECT_PROTOTYPE :: "string list" where
  "OBJECT_PROTOTYPE =
    [''constructor'', ''__defineGetter__'', ''__defineSetter__'', ''hasOwnProperty'',
     ''__lookupGetter__'', ''__lookupSetter__'', ''isPrototypeOf'', ''propertyIsEnumerable'',
     ''toString'', ''valueOf'', ''__proto__'', ''toLocaleString'']"

text \<open>
  \<open>table[key]\<close> for one of the two tables: the own property, else the inherited one, else
  \<open>undefined\<close> (\<open>None\<close>).
\<close>

definition lookup :: "(string \<times> FileType) list \<Rightarrow> string \<Rightarrow> FileType option" where
  "lookup table key =
     (case map_of table key of
        Some t \<Rightarrow> Some t
      | None \<Rightarrow> if key \<in> set OBJECT_PROTOTYPE then Some (Inherited key) else None)"

definition MAX_FILE_SIZE :: nat where
  "MAX_FILE_SIZE = 10 * 1024 * 1024"

definition MAX_TOTAL_SIZE :: nat where
  "MAX_TOTAL_SIZE = 50 * 1024 * 1024"

section \<open>utils/fileValidator.ts\<close>

text \<open>
  The MIME table is consulted first (an empty MIME type is falsy and skips it), then the
  table of extensions with the lower-cased text after the last dot of the name. Every
  value a lookup finds is truthy. The key of the second lookup starts with a dot, which
  no property of \<open>Object.prototype\<close> does.
\<close>

definition detectFileType :: "File \<Rightarrow> FileType" where
  "detectFileType file =
     (case (if file_type file = [] then None else lookup SUPPORTED_MIME_TYPES (file_type file)) of
        Some t \<Rightarrow> t
      | None \<Rightarrow>
          (let ext = ''.'' @ toLowerCase (last (split_js CHR ''.'' (file_name file)))
           in case lookup EXTENSION_TO_TYPE ext of Some t \<Rightarrow> t | None \<Rightarrow> Unknown))"

definition formatFileSize :: "nat \<Rightarrow> string" where
  "formatFileSize bytes =
     (if bytes < 1024 then show_nat bytes @ '' B''
      else if bytes < 1024 * 1024 then toFixed1 (real bytes / 1024) @ '' KB''
      else toFixed1 (real bytes / (1024 * 1024)) @ '' MB'')"

definition validateFile :: "File \<Rightarrow> ValidationResult" where
  "validateFile file =
     (if file_size file > MAX_FILE_SIZE then
        \<lparr>valid = False,
         error = Some (''File '' @ [CHR 0x22] @ file_name file @ [CHR 0x22] @
                       '' exceeds 10MB limit ('' @ formatFileSize (file_size file) @ '')''),
         vtype = None\<rparr>
      else
        (let type = detectFileType file
         in if type = Unknown then
              \<lparr>valid = False, error = Some (''Unsupported file type: '' @ file_name file),
               vtype = None\<rparr>
            else \<lparr>valid = True, error = None, vtype = Some type\<rparr>))"

text \<open>The \<open>for\<close> loop of \<open>validateFiles\<close>: the first invalid result is returned.\<close>

fun validateEach :: "File list \<Rightarrow> ValidationResult" where
  "validateEach [] = \<lparr>valid = True, error = None, vtype = None\<rparr>"
| "validateEach (file # files) =
     (let result = validateFile file
      in if \<not> valid result then result else validateEach files)"

definition validateFiles :: "File list \<Rightarrow> ValidationResult" where
  "validateFiles files =
     (let totalSize = foldl (\<lambda>sum f. sum + file_size f) 0 files
      in if totalSize > MAX_TOTAL_SIZE then
           \<lparr>valid = False,
            error = Some (''Total file size exceeds 50MB limit ('' @ formatFileSize totalSize @ '')''),
            vtype = None\<rparr>
         else validateEach files)"


section \<open>The browser and the libraries\<close>

text \<open>
  A canvas has pixel dimensions and a picture; pictures are named by the way they were
  obtained, since their pixels are never inspected by the program.
\<close>

datatype picture =
  Blank
| Decoded string
| Rendered string number
| Drawn picture "number list"

record canvas =
  cwidth :: nat
  cheight :: nat
  cpicture :: picture

text \<open>
  A zip archive: its entries in order, each a directory or a file with its bytes; a
  lookup by name finds the first entry of that name.
\<close>

record zip_entry =
  entry_dir :: bool
  entry_data :: string

type_synonym JSZip = "(string \<times> zip_entry) list"

text \<open>
  The environment: what the browser and the libraries answer.
  \<^item> \<open>read_error f\<close>: the FileReader fires \<open>onerror\<close> for \<open>f\<close>;
  \<^item> \<open>encodeDataURL f\<close>: the data URL of the content of \<open>f\<close>;
  \<^item> \<open>decodeImage url\<close>: the natural width and height of the image, \<open>None\<close> when the
    image element fires \<open>onerror\<close>;
  \<^item> \<open>context2d w h\<close>: \<open>getContext('2d')\<close> is not null on a canvas of this size;
  \<^item> \<open>toDataURL c mime q\<close>: the encoding of the canvas \<open>c\<close>;
  \<^item> \<open>html2canvas html width\<close>: the size of the canvas rendered from the container holding
    \<open>html\<close> at that width in pixels, or the error thrown;
  \<^item> \<open>splitTextToSize text width\<close>: the wrapped lines (jsPDF, courier 12);
  \<^item> \<open>loadAsync bytes\<close>: the parsed archive, or the error thrown;
  \<^item> \<open>async_string\<close>, \<open>async_base64\<close>: the decompressed entry, or the error thrown.
\<close>

record env =
  read_error :: "File \<Rightarrow> bool"
  encodeDataURL :: "File \<Rightarrow> string"
  decodeImage :: "string \<Rightarrow> (nat \<times> nat) option"
  context2d :: "nat \<Rightarrow> nat \<Rightarrow> bool"
  toDataURL :: "canvas \<Rightarrow> string \<Rightarrow> number \<Rightarrow> string"
  html2canvas :: "string \<Rightarrow> number \<Rightarrow> error + (nat \<times> nat)"
  splitTextToSize :: "string \<Rightarrow> number \<Rightarrow> string list"
  loadAsync :: "string \<Rightarrow> error + JSZip"
  async_string :: "zip_entry \<Rightarrow> error + string"
  async_base64 :: "zip_entry \<Rightarrow> error + string"

subsection \<open>utils/fileReader.ts\<close>

definition readAsDataURL :: "env \<Rightarrow> File \<Rightarrow> error + string" where
  "readAsDataURL e file =
     (if read_error e file then Inl (Error (''Failed to read file: '' @ file_name file))
      else Inr (encodeDataURL e file))"

definition readAsArrayBuffer :: "env \<Rightarrow> File \<Rightarrow> error + string" where
  "readAsArrayBuffer e file =
     (if read_error e file then Inl (Error (''Failed to read file: '' @ file_name file))
      else Inr (file_data file))"

definition readAsText :: "env \<Rightarrow> File \<Rightarrow> error + string" where
  "readAsText e file =
     (if read_error e file then Inl (Error (''Failed to read file: '' @ file_name file))
      else Inr (file_data file))"

definition loadImage :: "env \<Rightarrow> string \<Rightarrow> error + (nat \<times> nat)" where
  "loadImage e dataUrl =
     (case decodeImage e dataUrl of
        None \<Rightarrow> Inl (Error ''Failed to load image'')
      | Some img \<Rightarrow> Inr img)"

subsection \<open>jsPDF: the document as explicit state\<close>

datatype format = Named string | Custom number number

datatype orientation = portrait | landscape

datatype draw =
  addImage_op string string number number number number
| text_op string number number string

record page =
  page_format :: format
  page_orientation :: orientation
  draws :: "draw list"

record jsPDF =
  pages :: "page list"
  font :: "string \<times> string"
  fontSize :: number

text \<open>\<open>new jsPDF({orientation, unit: 'mm', format})\<close>: a document of one empty page.\<close>

definition new_jsPDF :: "orientation \<Rightarrow> format \<Rightarrow> jsPDF" where
  "new_jsPDF orient fmt =
     \<lparr>pages = [\<lparr>page_format = fmt, page_orientation = orient, draws = []\<rparr>],
      font = (''helvetica'', ''normal''), fontSize = 16\<rparr>"

text \<open>
  \<open>pdf.addPage(format, orientation)\<close> appends an empty page, which becomes the current one;
  \<open>pdf.addPage()\<close> repeats the format of the current page.
\<close>

definition addPage :: "format \<Rightarrow> orientation \<Rightarrow> jsPDF \<Rightarrow> jsPDF" where
  "addPage fmt orient pdf =
     pdf\<lparr>pages := pages pdf @ [\<lparr>page_format = fmt, page_orientation = orient, draws = []\<rparr>]\<rparr>"

definition addPage0 :: "jsPDF \<Rightarrow> jsPDF" where
  "addPage0 pdf = addPage (page_format (last (pages pdf))) (page_orientation (last (pages pdf))) pdf"

definition draw_on_current :: "draw \<Rightarrow> jsPDF \<Rightarrow> jsPDF" where
  "draw_on_current d pdf =
     pdf\<lparr>pages := butlast (pages pdf) @ [(last (pages pdf))\<lparr>draws := draws (last (pages pdf)) @ [d]\<rparr>]\<rparr>"

definition addImage :: "string \<Rightarrow> string \<Rightarrow> number \<Rightarrow> number \<Rightarrow> number \<Rightarrow> number \<Rightarrow> jsPDF \<Rightarrow> jsPDF" where
  "addImage imgData fmt x y w h pdf = draw_on_current (addImage_op imgData fmt x y w h) pdf"

definition pdf_text :: "string \<Rightarrow> number \<Rightarrow> number \<Rightarrow> jsPDF \<Rightarrow> jsPDF" where
  "pdf_text str x y pdf = draw_on_current (text_op str x y (snd (font pdf))) pdf"

definition setFont :: "string \<Rightarrow> string \<Rightarrow> jsPDF \<Rightarrow> jsPDF" where
  "setFont nm style pdf = pdf\<lparr>font := (nm, style)\<rparr>"

definition setFontSize :: "number \<Rightarrow> jsPDF \<Rightarrow> jsPDF" where
  "setFontSize sz pdf = pdf\<lparr>fontSize := sz\<rparr>"

text \<open>
  \<open>ConversionResult\<close>: the blob is the finished document (\<open>pdf.output('blob')\<close>).
\<close>

record ConversionResult =
  blob :: jsPDF
  filename :: string
  pageCount :: int

text \<open>What a converter leaves behind: the progress values reported, and its outcome.\<close>

type_synonym run = "number list \<times> (error + ConversionResult)"

text \<open>Page dimensions in millimetres (the three converters declare the same table).\<close>

fun PAGE_SIZES :: "PageSize \<Rightarrow> number \<times> number" where
  "PAGE_SIZES A4 = (210, 297)"
| "PAGE_SIZES letter = (2159 / 10, 2794 / 10)"
| "PAGE_SIZES fit = (210, 297)"

text \<open>
  \<open>options.pageSize === 'fit' ? 'a4' : options.pageSize.toLowerCase()\<close>.
\<close>

fun format_of :: "PageSize \<Rightarrow> format" where
  "format_of A4 = Named ''a4''"
| "format_of letter = Named ''letter''"
| "format_of fit = Named ''a4''"


section \<open>converters/imageToPdf.ts\<close>

definition MAX_DIMENSION :: nat where
  "MAX_DIMENSION = 4096"

definition constrainDimensions :: "nat \<Rightarrow> nat \<Rightarrow> nat \<times> nat" where
  "constrainDimensions width height =
     (if width \<le> MAX_DIMENSION \<and> height \<le> MAX_DIMENSION then (width, height)
      else
        (let ratio = min (real MAX_DIMENSION / real width) (real MAX_DIMENSION / real height)
         in (nat \<lfloor>real width * ratio\<rfloor>, nat \<lfloor>real height * ratio\<rfloor>)))"

text \<open>
  \<open>imageToCanvas\<close>: the image \<open>img\<close> (loaded from \<open>dataUrl\<close>, with its natural size) drawn
  onto a canvas of the constrained size.
\<close>

definition imageToCanvas :: "env \<Rightarrow> string \<Rightarrow> nat \<times> nat \<Rightarrow> error + canvas" where
  "imageToCanvas e dataUrl img =
     (let (width, height) = constrainDimensions (fst img) (snd img)
      in if \<not> context2d e width height then Inl (Error ''Failed to get canvas context'')
         else Inr \<lparr>cwidth = width, cheight = height,
                   cpicture = Drawn (Decoded dataUrl) [0, 0, real width, real height]\<rparr>)"

record placement =
  pl_x :: number
  pl_y :: number
  pl_width :: number
  pl_height :: number

definition calculatePlacement :: "number \<Rightarrow> number \<Rightarrow> number \<Rightarrow> number \<Rightarrow> number \<Rightarrow> placement" where
  "calculatePlacement imgWidth imgHeight pageWidth pageHeight mrg =
     (let availWidth = pageWidth - mrg * 2;
          availHeight = pageHeight - mrg * 2;
          imgRatio = imgWidth / imgHeight;
          pageRatio = availWidth / availHeight;
          (w, h) =
            (if imgRatio > pageRatio then (availWidth, availWidth / imgRatio)
             else (availHeight * imgRatio, availHeight))
      in \<lparr>pl_x = mrg + (availWidth - w) / 2,
          pl_y = mrg + (availHeight - h) / 2,
          pl_width = w, pl_height = h\<rparr>)"

text \<open>The page dimensions of one image: the paper size, or in fit mode the image's ratio.\<close>

definition page_dims :: "ConversionOptions \<Rightarrow> canvas \<Rightarrow> number \<times> number" where
  "page_dims options canvas =
     (let (pageW, pageH) = PAGE_SIZES (pageSize options)
      in if pageSize options = fit then
           (let imgRatio = real (cwidth canvas) / real (cheight canvas);
                (pageW, pageH) = (if imgRatio > 1 then (297, 297 / imgRatio)
                                  else (297 * imgRatio, 297))
            in (pageW + margin options * 2, pageH + margin options * 2))
         else (pageW, pageH))"

definition image_format :: "ConversionOptions \<Rightarrow> number \<Rightarrow> number \<Rightarrow> format" where
  "image_format options pageW pageH =
     (if pageSize options = fit then Custom pageW pageH else format_of (pageSize options))"

text \<open>
  The \<open>for\<close> loop of \<open>imagesToPdf\<close> from index \<open>i\<close> on, \<open>n\<close> being \<open>files.length\<close>. The
  document is \<open>null\<close> (\<open>None\<close>) until the first iteration creates it; \<open>pdf!.addPage\<close> on
  \<open>null\<close> would be a TypeError.
\<close>

fun imagesLoop :: "env \<Rightarrow> ConversionOptions \<Rightarrow> nat \<Rightarrow> nat \<Rightarrow> File list \<Rightarrow> jsPDF option
    \<Rightarrow> number list \<times> (error + jsPDF option)" where
  "imagesLoop e options n i [] pdf = ([], Inr pdf)"
| "imagesLoop e options n i (file # rest) pdf =
     (let p = (real i / real n) * 100
      in case readAsDataURL e file of
           Inl err \<Rightarrow> ([p], Inl err)
         | Inr dataUrl \<Rightarrow>
        (case loadImage e dataUrl of
           Inl err \<Rightarrow> ([p], Inl err)
         | Inr img \<Rightarrow>
        (case imageToCanvas e dataUrl img of
           Inl err \<Rightarrow> ([p], Inl err)
         | Inr canvas \<Rightarrow>
        (let imgData = toDataURL e canvas ''image/jpeg'' (quality options);
             (pageW, pageH) = page_dims options canvas;
             orient = (if pageW > pageH then landscape else portrait);
             fmt = image_format options pageW pageH;
             created = (if i = 0 then Inr (new_jsPDF orient fmt)
                        else (case pdf of
                                None \<Rightarrow> Inl (Error ''Cannot read properties of null'')
                              | Some d \<Rightarrow> Inr (addPage fmt orient d)))
         in case created of
              Inl err \<Rightarrow> ([p], Inl err)
            | Inr d \<Rightarrow>
                (let pl = calculatePlacement (real (cwidth canvas)) (real (cheight canvas))
                            pageW pageH (margin options);
                     d' = addImage imgData ''JPEG'' (pl_x pl) (pl_y pl) (pl_width pl) (pl_height pl) d;
                     (trace, out) = imagesLoop e options n (Suc i) rest (Some d')
                 in (p # trace, out))))))"

definition imagesToPdf :: "env \<Rightarrow> File list \<Rightarrow> ConversionOptions \<Rightarrow> run" where
  "imagesToPdf e files options =
     (if length files = 0 then ([], Inl (Error ''No images to convert''))
      else
        (case imagesLoop e options (length files) 0 files None of
           (trace, Inl err) \<Rightarrow> (trace, Inl err)
         | (trace, Inr None) \<Rightarrow> (trace @ [100], Inl (Error ''Cannot read properties of null''))
         | (trace, Inr (Some pdf)) \<Rightarrow>
             (trace @ [100],
              Inr \<lparr>blob = pdf, filename = ''converted-images.pdf'',
                   pageCount = int (length files)\<rparr>)))"

definition imageToPdf :: "env \<Rightarrow> File \<Rightarrow> ConversionOptions \<Rightarrow> run" where
  "imageToPdf e file options = imagesToPdf e [file] options"

section \<open>converters/textToPdf.ts\<close>

definition FONT_SIZE :: number where
  "FONT_SIZE = 12"

definition LINE_HEIGHT :: number where
  "LINE_HEIGHT = 6"

text \<open>
  The line loop of \<open>textToPdf\<close> from index \<open>i\<close> on; the state is the document, the counter
  \<open>currentPage\<close> and the vertical position \<open>y\<close>.
\<close>

fun textLoop :: "number \<Rightarrow> number \<Rightarrow> nat \<Rightarrow> nat \<Rightarrow> string list \<Rightarrow> jsPDF \<times> nat \<times> number
    \<Rightarrow> number list \<times> (jsPDF \<times> nat \<times> number)" where
  "textLoop mrg pageHeight totalLines i [] st = ([], st)"
| "textLoop mrg pageHeight totalLines i (line # rest) (pdf, currentPage, y) =
     (let (pdf1, currentPage1, y1) =
            (if y + LINE_HEIGHT > pageHeight - mrg then (addPage0 pdf, currentPage + 1, mrg)
             else (pdf, currentPage, y));
          pdf2 = pdf_text line mrg (y1 + LINE_HEIGHT) pdf1;
          y2 = y1 + LINE_HEIGHT;
          reported = (if i mod 50 = 0 then [50 + (real i / real totalLines) * 50] else []);
          (trace, st') = textLoop mrg pageHeight totalLines (Suc i) rest (pdf2, currentPage1, y2)
      in (reported @ trace, st'))"

definition textToPdf :: "env \<Rightarrow> File \<Rightarrow> ConversionOptions \<Rightarrow> run" where
  "textToPdf e file options =
     (case readAsText e file of
        Inl err \<Rightarrow> ([10], Inl err)
      | Inr txt \<Rightarrow>
          (let (pageWidth, pageHeight) = PAGE_SIZES (pageSize options);
               mrg = margin options;
               contentWidth = pageWidth - mrg * 2;
               contentHeight = pageHeight - mrg * 2;
               linesPerPage = \<lfloor>contentHeight / LINE_HEIGHT\<rfloor>;
               pdf = setFontSize FONT_SIZE (setFont ''courier'' ''normal''
                       (new_jsPDF portrait (format_of (pageSize options))));
               lines = splitTextToSize e txt contentWidth;
               totalLines = length lines;
               totalPages = \<lceil>real totalLines / real_of_int linesPerPage\<rceil>;
               (trace, (pdf', currentPage, y)) =
                  textLoop mrg pageHeight totalLines 0 lines (pdf, 1, mrg)
           in ([10, 30, 50] @ trace @ [100],
               Inr \<lparr>blob = pdf', filename = remove_extension (file_name file) @ ''.pdf'',
                    pageCount = totalPages\<rparr>)))"

text \<open>The inner loop of \<open>textsToSinglePdf\<close> over the lines of one file.\<close>

fun textsLineLoop :: "number \<Rightarrow> number \<Rightarrow> string list \<Rightarrow> jsPDF \<times> nat \<times> number
    \<Rightarrow> jsPDF \<times> nat \<times> number" where
  "textsLineLoop mrg pageHeight [] st = st"
| "textsLineLoop mrg pageHeight (line # rest) (pdf, totalPages, y) =
     (let (pdf1, totalPages1, y1) =
            (if y + LINE_HEIGHT > pageHeight - mrg then (addPage0 pdf, totalPages + 1, mrg)
             else (pdf, totalPages, y));
          pdf2 = pdf_text line mrg (y1 + LINE_HEIGHT) pdf1
      in textsLineLoop mrg pageHeight rest (pdf2, totalPages1, y1 + LINE_HEIGHT))"

text \<open>The outer loop over the files, from index \<open>fileIndex\<close> on.\<close>

fun textsFileLoop :: "env \<Rightarrow> ConversionOptions \<Rightarrow> nat \<Rightarrow> nat \<Rightarrow> File list
    \<Rightarrow> jsPDF \<times> nat \<times> number \<times> bool \<Rightarrow> number list \<times> (error + jsPDF \<times> nat)" where
  "textsFileLoop e options n fileIndex [] (pdf, totalPages, y, isFirstFile) =
     ([], Inr (pdf, totalPages))"
| "textsFileLoop e options n fileIndex (file # rest) (pdf, totalPages, y, isFirstFile) =
     (case readAsText e file of
        Inl err \<Rightarrow> ([], Inl err)
      | Inr txt \<Rightarrow>
          (let (pageWidth, pageHeight) = PAGE_SIZES (pageSize options);
               mrg = margin options;
               lines = splitTextToSize e txt (pageWidth - mrg * 2);
               p = (real fileIndex / real n) * 100;
               (pdf1, totalPages1, y1) =
                 (if \<not> isFirstFile then (addPage0 pdf, totalPages + 1, mrg)
                  else (pdf, totalPages, y));
               pdf2 = setFont ''courier'' ''bold'' pdf1;
               pdf3 = pdf_text (''=== '' @ file_name file @ '' ==='') mrg (y1 + LINE_HEIGHT) pdf2;
               pdf4 = setFont ''courier'' ''normal'' pdf3;
               y2 = y1 + LINE_HEIGHT * 2;
               (pdf5, totalPages5, y5) = textsLineLoop mrg pageHeight lines (pdf4, totalPages1, y2);
               (trace, out) = textsFileLoop e options n (Suc fileIndex) rest
                                (pdf5, totalPages5, y5, False)
           in (p # trace, out)))"

definition textsToSinglePdf :: "env \<Rightarrow> File list \<Rightarrow> ConversionOptions \<Rightarrow> run" where
  "textsToSinglePdf e files options =
     (if length files = 0 then ([], Inl (Error ''No files to convert''))
      else
        (let pdf = setFontSize FONT_SIZE (setFont ''courier'' ''normal''
                     (new_jsPDF portrait (format_of (pageSize options))))
         in case textsFileLoop e options (length files) 0 files
                   (pdf, 1, margin options, True) of
              (trace, Inl err) \<Rightarrow> (trace, Inl err)
            | (trace, Inr (pdf', totalPages)) \<Rightarrow>
                (trace @ [100],
                 Inr \<lparr>blob = pdf', filename = ''converted-texts.pdf'',
                      pageCount = int totalPages\<rparr>)))"


section \<open>converters/htmlToPdf.ts\<close>

subsection \<open>The regular expressions of \<open>markdownToHtml\<close>\<close>

text \<open>
  Each \<open>.replace(/re/g, template)\<close> of the source is one scanning function. A scan visits
  the positions of the text from left to right. At a position where the expression
  matches, it emits the filled template and skips the rest of the match (the counter
  \<open>k\<close> is the number of characters of the current match still to skip); elsewhere it
  copies the character. This is what a global replace does, since matches are taken
  leftmost first and do not overlap, and none of the expressions matches the empty
  string.

  Line terminators (for \<open>.\<close>, and for \<open>^\<close> and \<open>$\<close> under the flag \<open>m\<close>) are line feed and
  carriage return; white space (\<open>\s\<close>) is tab, line feed, vertical tab, form feed,
  carriage return and space.
\<close>

definition is_LT :: "char \<Rightarrow> bool" where
  "is_LT c = (c = CHR 0x0A \<or> c = CHR 0x0D)"

definition is_space :: "char \<Rightarrow> bool" where
  "is_space c = (c = CHR 0x09 \<or> c = CHR 0x0A \<or> c = CHR 0x0B \<or> c = CHR 0x0C \<or> c = CHR 0x0D \<or> c = CHR 0x20)"

text \<open>
  The lazy \<open>(.*?)d\<close>, or \<open>([\s\S]*?)d\<close> when \<open>dotall\<close>: the shortest text that is followed by
  the delimiter \<open>d\<close>; without \<open>dotall\<close> it may not cross a line terminator.
\<close>

fun find_close :: "bool \<Rightarrow> string \<Rightarrow> string \<Rightarrow> string option" where
  "find_close dotall d [] = (if startsWith [] d then Some [] else None)"
| "find_close dotall d (c # cs) =
     (if startsWith (c # cs) d then Some []
      else if \<not> dotall \<and> is_LT c then None
      else map_option ((#) c) (find_close dotall d cs))"

text \<open>
  \<open>/d(.*?)d/g\<close> and \<open>/d([\s\S]*?)d/g\<close> for a literal delimiter \<open>d\<close>, replaced by
  \<open>op $1 cl\<close>.
\<close>

fun delimited :: "bool \<Rightarrow> string \<Rightarrow> string \<Rightarrow> string \<Rightarrow> nat \<Rightarrow> string \<Rightarrow> string" where
  "delimited dotall d op cl k [] = []"
| "delimited dotall d op cl k (c # cs) =
     (if k > 0 then delimited dotall d op cl (k - 1) cs
      else if startsWith (c # cs) d then
        (case find_close dotall d (drop (length d) (c # cs)) of
           Some content \<Rightarrow>
             op @ content @ cl @ delimited dotall d op cl (2 * length d + length content - 1) cs
         | None \<Rightarrow> c # delimited dotall d op cl 0 cs)
      else c # delimited dotall d op cl 0 cs)"

text \<open>
  \<open>/^m(.*$)/gm\<close> for a literal marker \<open>m\<close>, replaced by \<open>op $1 cl\<close>; \<open>bol\<close> says that the
  position is the start of a line.
\<close>

fun heading :: "string \<Rightarrow> string \<Rightarrow> string \<Rightarrow> bool \<Rightarrow> nat \<Rightarrow> string \<Rightarrow> string" where
  "heading m op cl bol k [] = []"
| "heading m op cl bol k (c # cs) =
     (if k > 0 then heading m op cl (is_LT c) (k - 1) cs
      else if bol \<and> startsWith (c # cs) m then
        (let line = takeWhile (\<lambda>a. \<not> is_LT a) (drop (length m) (c # cs))
         in op @ line @ cl @ heading m op cl (is_LT c) (length m + length line - 1) cs)
      else c # heading m op cl (is_LT c) 0 cs)"

text \<open>\<open>/`([^`]+)`/g\<close>, replaced by \<open><code>$1</code>\<close>.\<close>

fun inline_code :: "nat \<Rightarrow> string \<Rightarrow> string" where
  "inline_code k [] = []"
| "inline_code k (c # cs) =
     (if k > 0 then inline_code (k - 1) cs
      else if c = CHR ''`'' then
        (let run = takeWhile (\<lambda>a. a \<noteq> CHR ''`'') cs
         in if run \<noteq> [] \<and> startsWith (drop (length run) cs) ''`''
            then ''<code>'' @ run @ ''</code>'' @ inline_code (length run + 1) cs
            else c # inline_code 0 cs)
      else c # inline_code 0 cs)"

text \<open>\<open>/\[([^\]]+)\]\(([^)]+)\)/g\<close>, replaced by \<open><a href="$2">$1</a>\<close>.\<close>

fun links :: "nat \<Rightarrow> string \<Rightarrow> string" where
  "links k [] = []"
| "links k (c # cs) =
     (if k > 0 then links (k - 1) cs
      else if c = CHR ''['' then
        (let label = takeWhile (\<lambda>a. a \<noteq> CHR '']'') cs;
             r = drop (length label) cs;
             url = takeWhile (\<lambda>a. a \<noteq> CHR '')'') (drop 2 r)
         in if label \<noteq> [] \<and> startsWith r '']('' \<and> url \<noteq> []
               \<and> startsWith (drop (2 + length url) r) '')''
            then ''<a href='' @ [CHR 0x22] @ url @ [CHR 0x22] @ ''>'' @ label @ ''</a>''
                 @ links (length label + 2 + length url + 1) cs
            else c # links 0 cs)
      else c # links 0 cs)"

text \<open>\<open>/^\s*[-*]\s+(.*)$/gm\<close>, replaced by \<open><li>$1</li>\<close>.\<close>

fun list_items :: "bool \<Rightarrow> nat \<Rightarrow> string \<Rightarrow> string" where
  "list_items bol k [] = []"
| "list_items bol k (c # cs) =
     (if k > 0 then list_items (is_LT c) (k - 1) cs
      else if bol then
        (let w1 = takeWhile is_space (c # cs);
             r1 = drop (length w1) (c # cs);
             w2 = takeWhile is_space (drop 1 r1);
             line = takeWhile (\<lambda>a. \<not> is_LT a) (drop (1 + length w2) r1)
         in if (startsWith r1 ''-'' \<or> startsWith r1 ''*'') \<and> w2 \<noteq> []
            then ''<li>'' @ line @ ''</li>''
                 @ list_items (is_LT c) (length w1 + 1 + length w2 + length line - 1) cs
            else c # list_items (is_LT c) 0 cs)
      else c # list_items (is_LT c) 0 cs)"

text \<open>\<open>/\n\n/g\<close>, replaced by \<open></p><p>\<close>.\<close>

fun paragraphs :: "string \<Rightarrow> string" where
  "paragraphs (a # b # cs) =
     (if a = CHR 0x0A \<and> b = CHR 0x0A then ''</p><p>'' @ paragraphs cs
      else a # paragraphs (b # cs))"
| "paragraphs cs = cs"

text \<open>
  \<open>/(<li>.*?<\/li>\s*)+/g\<close>, replaced by \<open><ul>$&</ul>\<close>. \<open>li_item s\<close> is the length of one
  \<open><li>.*?</li>\s*\<close> at the start of \<open>s\<close>, and \<open>li_chain s\<close> the length of the longest
  sequence of such items at the start of \<open>s\<close>.
\<close>

definition li_item :: "string \<Rightarrow> nat option" where
  "li_item s =
     (if startsWith s ''<li>'' then
        (case find_close False ''</li>'' (drop 4 s) of
           Some content \<Rightarrow>
             Some (4 + length content + 5
                   + length (takeWhile is_space (drop (4 + length content + 5) s)))
         | None \<Rightarrow> None)
      else None)"

function li_chain :: "string \<Rightarrow> nat" where
  "li_chain s = (case li_item s of None \<Rightarrow> 0 | Some n \<Rightarrow> n + li_chain (drop n s))"
  by pat_completeness auto
termination
proof (relation "measure length")
  show "wf (measure length)"
    by simp
next
  fix s n
  assume "li_item s = Some n"
  then have "s \<noteq> []" and "0 < n"
    by (auto simp: li_item_def startsWith_def split: if_splits option.splits)
  then show "(drop n s, s) \<in> measure length"
    by simp
qed

declare li_chain.simps [simp del]

fun ul_wrap :: "nat \<Rightarrow> string \<Rightarrow> string" where
  "ul_wrap k [] = []"
| "ul_wrap k (c # cs) =
     (if k > 0 then ul_wrap (k - 1) cs
      else
        (let n = li_chain (c # cs)
         in if n > 0 then ''<ul>'' @ take n (c # cs) @ ''</ul>'' @ ul_wrap (n - 1) cs
            else c # ul_wrap 0 cs))"

definition markdownToHtml :: "string \<Rightarrow> string" where
  "markdownToHtml md =
     (let h3 = heading ''### '' ''<h3>'' ''</h3>'' True 0 md;
          h2 = heading ''## '' ''<h2>'' ''</h2>'' True 0 h3;
          h1 = heading ''# '' ''<h1>'' ''</h1>'' True 0 h2;
          bi = delimited False ''***'' ''<strong><em>'' ''</em></strong>'' 0 h1;
          b = delimited False ''**'' ''<strong>'' ''</strong>'' 0 bi;
          i = delimited False ''*'' ''<em>'' ''</em>'' 0 b;
          fenced = delimited True ''```'' ''<pre><code>'' ''</code></pre>'' 0 i;
          code = inline_code 0 fenced;
          lnk = links 0 code;
          li = list_items True 0 lnk;
          par = paragraphs li;
          br = replace_char_all CHR 0x0A ''<br>'' par
      in ul_wrap 0 (''<p>'' @ br @ ''</p>''))"

subsection \<open>\<open>htmlToPdf\<close> and \<open>htmlsToSinglePdf\<close>\<close>

definition PX_PER_MM :: number where
  "PX_PER_MM = 96 / (254 / 10)"

text \<open>
  One iteration of the page loop: the strip of the rendered canvas that belongs to the
  page with index \<open>p\<close> is drawn on a canvas of its own (whose height, an integer
  attribute, truncates the assigned number), encoded, and placed at the margin.
\<close>

definition page_strip :: "env \<Rightarrow> ConversionOptions \<Rightarrow> canvas \<Rightarrow> number \<Rightarrow> number \<Rightarrow> nat
    \<Rightarrow> jsPDF \<Rightarrow> error + jsPDF" where
  "page_strip e options cv contentHeightPx contentWidthMm p pdf =
     (let pw = cwidth cv;
          ph = nat \<lfloor>min contentHeightPx (real (cheight cv) - real p * contentHeightPx)\<rfloor>
      in if \<not> context2d e pw ph then Inl (Error ''Failed to get canvas context'')
         else
           (let pageCanvas = \<lparr>cwidth = pw, cheight = ph,
                               cpicture = Drawn (cpicture cv)
                                 [0, real p * contentHeightPx, real (cwidth cv), real ph,
                                  0, 0, real pw, real ph]\<rparr>;
                imgData = toDataURL e pageCanvas ''image/jpeg'' (quality options);
                imgHeight = (real ph / real pw) * contentWidthMm
            in Inr (addImage imgData ''JPEG'' (margin options) (margin options)
                      contentWidthMm imgHeight pdf)))"

text \<open>
  The page loop of \<open>htmlToPdf\<close> from the index \<open>p\<close> on, with \<open>k\<close> iterations to go.
\<close>

fun pagesLoop :: "env \<Rightarrow> ConversionOptions \<Rightarrow> canvas \<Rightarrow> number \<Rightarrow> number \<Rightarrow> int
    \<Rightarrow> nat \<Rightarrow> nat \<Rightarrow> jsPDF \<Rightarrow> number list \<times> (error + jsPDF)" where
  "pagesLoop e options cv chpx cwmm totalPages p 0 pdf = ([], Inr pdf)"
| "pagesLoop e options cv chpx cwmm totalPages p (Suc k) pdf =
     (case page_strip e options cv chpx cwmm p (if p > 0 then addPage0 pdf else pdf) of
        Inl err \<Rightarrow> ([], Inl err)
      | Inr pdf' \<Rightarrow>
          (let (trace, out) = pagesLoop e options cv chpx cwmm totalPages (Suc p) k pdf'
           in ((70 + (real p / real_of_int totalPages) * 30) # trace, out)))"

text \<open>
  The off-screen container is appended to the document body before the rendering and
  removed on both exits; the page of the browser is not part of the model.
\<close>

definition is_markdown_name :: "string \<Rightarrow> bool" where
  "is_markdown_name nm = (endsWith nm ''.md'' \<or> endsWith nm ''.markdown'')"

definition htmlToPdf :: "env \<Rightarrow> File \<Rightarrow> ConversionOptions \<Rightarrow> run" where
  "htmlToPdf e file options =
     (case readAsText e file of
        Inl err \<Rightarrow> ([10], Inl err)
      | Inr content \<Rightarrow>
          (let htm = (if is_markdown_name (file_name file) then markdownToHtml content else content);
               (pageWidth, pageHeight) = PAGE_SIZES (pageSize options);
               mrg = margin options;
               contentWidthMm = pageWidth - mrg * 2;
               contentWidthPx = contentWidthMm * PX_PER_MM
           in case html2canvas e htm contentWidthPx of
                Inl err \<Rightarrow> ([10, 20, 40], Inl err)
              | Inr (cw, ch) \<Rightarrow>
                  (let cv = \<lparr>cwidth = cw, cheight = ch, cpicture = Rendered htm contentWidthPx\<rparr>;
                       contentHeightMm = pageHeight - mrg * 2;
                       contentHeightPx = contentHeightMm * PX_PER_MM * 2;
                       totalPages = \<lceil>real ch / contentHeightPx\<rceil>;
                       pdf = new_jsPDF portrait (format_of (pageSize options))
                   in case pagesLoop e options cv contentHeightPx contentWidthMm totalPages
                             0 (nat totalPages) pdf of
                        (trace, Inl err) \<Rightarrow> ([10, 20, 40, 70] @ trace, Inl err)
                      | (trace, Inr pdf') \<Rightarrow>
                          ([10, 20, 40, 70] @ trace @ [100],
                           Inr \<lparr>blob = pdf',
                                filename = remove_extension (file_name file) @ ''.pdf'',
                                pageCount = totalPages\<rparr>))))"

text \<open>
  The page loop of \<open>htmlsToSinglePdf\<close>: the document is created by the first page of the
  first file that has one.
\<close>

fun htmlsPagesLoop :: "env \<Rightarrow> ConversionOptions \<Rightarrow> canvas \<Rightarrow> number \<Rightarrow> number
    \<Rightarrow> nat \<Rightarrow> nat \<Rightarrow> jsPDF option \<times> nat \<Rightarrow> error + jsPDF option \<times> nat" where
  "htmlsPagesLoop e options cv chpx cwmm p 0 st = Inr st"
| "htmlsPagesLoop e options cv chpx cwmm p (Suc k) (pdf, totalPages) =
     (let pdf1 = (case pdf of
                    None \<Rightarrow> new_jsPDF portrait (format_of (pageSize options))
                  | Some d \<Rightarrow> addPage0 d)
      in case page_strip e options cv chpx cwmm p pdf1 of
           Inl err \<Rightarrow> Inl err
         | Inr pdf2 \<Rightarrow> htmlsPagesLoop e options cv chpx cwmm (Suc p) k (Some pdf2, totalPages + 1))"

fun htmlsFileLoop :: "env \<Rightarrow> ConversionOptions \<Rightarrow> nat \<Rightarrow> nat \<Rightarrow> File list
    \<Rightarrow> jsPDF option \<times> nat \<Rightarrow> number list \<times> (error + jsPDF option \<times> nat)" where
  "htmlsFileLoop e options n fileIndex [] st = ([], Inr st)"
| "htmlsFileLoop e options n fileIndex (file # rest) st =
     (case readAsText e file of
        Inl err \<Rightarrow> ([], Inl err)
      | Inr content \<Rightarrow>
          (let htm = (if is_markdown_name (file_name file) then markdownToHtml content else content);
               (pageWidth, pageHeight) = PAGE_SIZES (pageSize options);
               mrg = margin options;
               contentWidthMm = pageWidth - mrg * 2;
               contentWidthPx = contentWidthMm * PX_PER_MM;
               contentHeightMm = pageHeight - mrg * 2;
               contentHeightPx = contentHeightMm * PX_PER_MM * 2
           in case html2canvas e htm contentWidthPx of
                Inl err \<Rightarrow> ([], Inl err)
              | Inr (cw, ch) \<Rightarrow>
                  (let cv = \<lparr>cwidth = cw, cheight = ch, cpicture = Rendered htm contentWidthPx\<rparr>;
                       fileTotalPages = \<lceil>real ch / contentHeightPx\<rceil>
                   in case htmlsPagesLoop e options cv contentHeightPx contentWidthMm
                             0 (nat fileTotalPages) st of
                        Inl err \<Rightarrow> ([], Inl err)
                      | Inr st' \<Rightarrow>
                          (let (trace, out) = htmlsFileLoop e options n (Suc fileIndex) rest st'
                           in (((real (fileIndex + 1) / real n) * 100) # trace, out)))))"

definition htmlsToSinglePdf :: "env \<Rightarrow> File list \<Rightarrow> ConversionOptions \<Rightarrow> run" where
  "htmlsToSinglePdf e files options =
     (if length files = 0 then ([], Inl (Error ''No files to convert''))
      else
        (case htmlsFileLoop e options (length files) 0 files (None, 0) of
           (trace, Inl err) \<Rightarrow> (trace, Inl err)
         | (trace, Inr (None, totalPages)) \<Rightarrow>
             (trace @ [100], Inl (Error ''Cannot read properties of null''))
         | (trace, Inr (Some pdf, totalPages)) \<Rightarrow>
             (trace @ [100],
              Inr \<lparr>blob = pdf, filename = ''converted-documents.pdf'',
                   pageCount = int totalPages\<rparr>)))"

section \<open>converters/docxToPdf.ts\<close>

text \<open>
  \<open>/L[^:>]+:/g\<close> replaced by \<open>L\<close>, for the literal lead \<open>L\<close> (\<open><\<close>, then \<open></\<close>).
\<close>

fun strip_prefix :: "string \<Rightarrow> nat \<Rightarrow> string \<Rightarrow> string" where
  "strip_prefix lead k [] = []"
| "strip_prefix lead k (c # cs) =
     (if k > 0 then strip_prefix lead (k - 1) cs
      else if startsWith (c # cs) lead then
        (let run = takeWhile (\<lambda>a. a \<noteq> CHR '':'' \<and> a \<noteq> CHR ''>'') (drop (length lead) (c # cs))
         in if run \<noteq> [] \<and> startsWith (drop (length lead + length run) (c # cs)) '':''
            then lead @ strip_prefix lead (length lead + length run) cs
            else c # strip_prefix lead 0 cs)
      else c # strip_prefix lead 0 cs)"

text \<open>\<open>cleanXml.match(/<p[^>]*>[\s\S]*?<\/p>/g) || []\<close>: the matches, in order.\<close>

fun p_matches :: "nat \<Rightarrow> string \<Rightarrow> string list" where
  "p_matches k [] = []"
| "p_matches k (c # cs) =
     (if k > 0 then p_matches (k - 1) cs
      else
        (let attrs = takeWhile (\<lambda>a. a \<noteq> CHR ''>'') (drop 2 (c # cs));
             r = drop (2 + length attrs) (c # cs)
         in if startsWith (c # cs) ''<p'' \<and> startsWith r ''>'' then
              (case find_close True ''</p>'' (drop 1 r) of
                 Some body \<Rightarrow>
                   take (2 + length attrs + 1 + length body + 4) (c # cs)
                   # p_matches (2 + length attrs + 1 + length body + 4 - 1) cs
               | None \<Rightarrow> p_matches 0 cs)
            else p_matches 0 cs))"

text \<open>\<open>pMatch.match(/<t[^>]*>([^<]*)<\/t>/g) || []\<close>.\<close>

fun t_matches :: "nat \<Rightarrow> string \<Rightarrow> string list" where
  "t_matches k [] = []"
| "t_matches k (c # cs) =
     (if k > 0 then t_matches (k - 1) cs
      else
        (let attrs = takeWhile (\<lambda>a. a \<noteq> CHR ''>'') (drop 2 (c # cs));
             r = drop (2 + length attrs) (c # cs);
             body = takeWhile (\<lambda>a. a \<noteq> CHR ''<'') (drop 1 r)
         in if startsWith (c # cs) ''<t'' \<and> startsWith r ''>''
               \<and> startsWith (drop (1 + length body) r) ''</t>''
            then take (2 + length attrs + 1 + length body + 4) (c # cs)
                 # t_matches (2 + length attrs + 1 + length body + 4 - 1) cs
            else t_matches 0 cs))"

text \<open>The first match of \<open>/<t[^>]*>/\<close> removed.\<close>

fun remove_t_open :: "string \<Rightarrow> string" where
  "remove_t_open [] = []"
| "remove_t_open (c # cs) =
     (let attrs = takeWhile (\<lambda>a. a \<noteq> CHR ''>'') (drop 2 (c # cs));
          r = drop (2 + length attrs) (c # cs)
      in if startsWith (c # cs) ''<t'' \<and> startsWith r ''>'' then drop 1 r
         else c # remove_t_open cs)"

text \<open>\<open>s.trim()\<close> is truthy: some character of \<open>s\<close> is not white space.\<close>

definition trim_nonempty :: "string \<Rightarrow> bool" where
  "trim_nonempty s = (\<exists>c \<in> set s. \<not> is_space c)"

definition extractTextFromXml :: "string \<Rightarrow> string" where
  "extractTextFromXml xml =
     (let cleanXml = strip_prefix ''</'' 0 (strip_prefix ''<'' 0 xml);
          pMatches = p_matches 0 cleanXml;
          paragraphs =
            map (\<lambda>pMatch.
                   (let textMatches = t_matches 0 pMatch;
                        paragraphText =
                          concat (map (\<lambda>t. replace_first ''</t>'' [] (remove_t_open t)) textMatches)
                    in if trim_nonempty paragraphText then paragraphText else []))
                pMatches
      in join_js [CHR 0x0A] paragraphs)"

text \<open>\<open>zip.file(name)\<close>: the entry of that name when it is not a directory.\<close>

definition zip_file :: "JSZip \<Rightarrow> string \<Rightarrow> zip_entry option" where
  "zip_file z nm =
     (case map_of z nm of
        None \<Rightarrow> None
      | Some en \<Rightarrow> if entry_dir en then None else Some en)"

definition is_media_image :: "string \<Rightarrow> bool" where
  "is_media_image nm =
     (startsWith nm ''word/media/'' \<and>
      (\<exists>ext \<in> set [''.png'', ''.jpg'', ''.jpeg'', ''.gif'', ''.webp'']. endsWith (toLowerCase nm) ext))"

text \<open>
  The loop of \<open>extractImages\<close>: an entry that cannot be decoded is skipped. A name kept by
  the filter ends in one of the five extensions, so the text after its last dot is never
  empty and the default \<open>'png'\<close> is never taken; \<open>zip.folder\<close> returns an object for every
  name, so the function never returns before the loop.
\<close>

fun imagesOf :: "env \<Rightarrow> JSZip \<Rightarrow> string list \<Rightarrow> (string \<times> string) list" where
  "imagesOf e z [] = []"
| "imagesOf e z (imagePath # rest) =
     (case zip_file z imagePath of
        None \<Rightarrow> imagesOf e z rest
      | Some file \<Rightarrow>
          (case async_base64 e file of
             Inl err \<Rightarrow> imagesOf e z rest
           | Inr data \<Rightarrow>
               (let ext = toLowerCase (last (split_js CHR ''.'' imagePath));
                    mimeType = (if ext = ''jpg'' then ''jpeg'' else ext)
                in (imagePath, ''data:image/'' @ mimeType @ '';base64,'' @ data)
                   # imagesOf e z rest)))"

definition extractImages :: "env \<Rightarrow> JSZip \<Rightarrow> (string \<times> string) list" where
  "extractImages e z = imagesOf e z (filter is_media_image (map fst z))"

definition contentToHtml :: "string \<Rightarrow> (string \<times> string) list \<Rightarrow> string" where
  "contentToHtml txt images =
     (let escaped = replace_char_all CHR ''>'' ''&gt;''
                      (replace_char_all CHR ''<'' ''&lt;''
                        (replace_char_all CHR ''&'' ''&amp;'' txt));
          htm = join_js [CHR 0x0A]
                  (map (\<lambda>line. ''<p>'' @ (if line = [] then ''&nbsp;'' else line) @ ''</p>'')
                       (split_js CHR 0x0A escaped))
      in if length images > 0 then
           htm @ ''<div style='' @ [CHR 0x22] @ ''margin-top: 24px;'' @ [CHR 0x22] @ ''>''
               @ ''<h3>Extracted Images</h3>''
               @ concat (map (\<lambda>(path, dataUrl).
                    ''<img src='' @ [CHR 0x22] @ dataUrl @ [CHR 0x22]
                    @ '' style='' @ [CHR 0x22] @ ''max-width: 100%; margin: 8px 0;'' @ [CHR 0x22]
                    @ '' alt='' @ [CHR 0x22] @ ''Extracted image'' @ [CHR 0x22] @ '' />'') images)
               @ ''</div>''
         else htm)"

text \<open>\<open>new File([new Blob([html])], name, {type: 'text/html'})\<close>.\<close>

definition html_file :: "string \<Rightarrow> string \<Rightarrow> File" where
  "html_file htm nm =
     \<lparr>file_name = nm, file_type = ''text/html'', file_size = length htm, file_data = htm\<rparr>"

definition docxToPdf :: "env \<Rightarrow> File \<Rightarrow> ConversionOptions \<Rightarrow> run" where
  "docxToPdf e file options =
     (case readAsArrayBuffer e file of
        Inl err \<Rightarrow> ([10], Inl err)
      | Inr arrayBuffer \<Rightarrow>
     (case loadAsync e arrayBuffer of
        Inl err \<Rightarrow> ([10, 20], Inl err)
      | Inr z \<Rightarrow>
     (case zip_file z ''word/document.xml'' of
        None \<Rightarrow> ([10, 20, 30], Inl (Error ''Invalid DOCX file: missing document.xml''))
      | Some documentXml \<Rightarrow>
     (case async_string e documentXml of
        Inl err \<Rightarrow> ([10, 20, 30], Inl err)
      | Inr xmlContent \<Rightarrow>
          (let txt = extractTextFromXml xmlContent;
               images = extractImages e z;
               htm = contentToHtml txt images;
               htmlFile = html_file htm (replace_first ''.docx'' ''.html'' (file_name file));
               (trace, out) = htmlToPdf e htmlFile options
           in ([10, 20, 30, 40, 50, 60] @ map (\<lambda>progress. 60 + progress * (4 / 10)) trace,
               (case out of
                  Inl err \<Rightarrow> Inl err
                | Inr result \<Rightarrow>
                    Inr (result\<lparr>filename := replace_first ''.docx'' ''.pdf'' (file_name file)\<rparr>))))))))"

text \<open>
  The loop of \<open>docxsToSinglePdf\<close> from index \<open>i\<close> on: the parts of the combined HTML
  collected so far are \<open>allHtmlParts\<close>; a file without \<open>word/document.xml\<close> takes the
  \<open>continue\<close>.
\<close>

definition docx_parts :: "env \<Rightarrow> File \<Rightarrow> JSZip \<Rightarrow> string \<Rightarrow> string list" where
  "docx_parts e file z xmlContent =
     (let txt = extractTextFromXml xmlContent;
          images = extractImages e z
      in [''<h1 style='' @ [CHR 0x22] @ ''border-bottom: 2px solid #ddd; padding-bottom: 8px;''
            @ [CHR 0x22] @ ''>'' @ file_name file @ ''</h1>'',
          contentToHtml txt images,
          ''<div style='' @ [CHR 0x22] @ ''page-break-after: always;'' @ [CHR 0x22] @ ''></div>''])"

fun docxsLoop :: "env \<Rightarrow> nat \<Rightarrow> nat \<Rightarrow> File list \<Rightarrow> string list
    \<Rightarrow> number list \<times> (error + string list)" where
  "docxsLoop e n i [] allHtmlParts = ([], Inr allHtmlParts)"
| "docxsLoop e n i (file # rest) allHtmlParts =
     (let p = (real i / real n) * 50
      in case readAsArrayBuffer e file of
           Inl err \<Rightarrow> ([p], Inl err)
         | Inr arrayBuffer \<Rightarrow>
        (case loadAsync e arrayBuffer of
           Inl err \<Rightarrow> ([p], Inl err)
         | Inr z \<Rightarrow>
        (case zip_file z ''word/document.xml'' of
           None \<Rightarrow>
             (let (trace, out) = docxsLoop e n (Suc i) rest allHtmlParts in (p # trace, out))
         | Some documentXml \<Rightarrow>
        (case async_string e documentXml of
           Inl err \<Rightarrow> ([p], Inl err)
         | Inr xmlContent \<Rightarrow>
             (let (trace, out) = docxsLoop e n (Suc i) rest
                                   (allHtmlParts @ docx_parts e file z xmlContent)
              in (p # trace, out))))))"

definition docxsToSinglePdf :: "env \<Rightarrow> File list \<Rightarrow> ConversionOptions \<Rightarrow> run" where
  "docxsToSinglePdf e files options =
     (if length files = 0 then ([], Inl (Error ''No files to convert''))
      else
        (case docxsLoop e (length files) 0 files [] of
           (trace, Inl err) \<Rightarrow> (trace, Inl err)
         | (trace, Inr allHtmlParts) \<Rightarrow>
             (let combinedHtml = join_js [CHR 0x0A] allHtmlParts;
                  htmlFile = html_file combinedHtml ''combined.html'';
                  (trace2, out) = htmlToPdf e htmlFile options
              in (trace @ [50] @ map (\<lambda>progress. 50 + progress * (5 / 10)) trace2,
                  (case out of
                     Inl err \<Rightarrow> Inl err
                   | Inr result \<Rightarrow> Inr (result\<lparr>filename := ''converted-documents.pdf''\<rparr>))))))"

section \<open>hooks/useFileConverter.ts\<close>

datatype ConversionStatus = status_pending | status_converting | status_done | status_error

record ConvertibleFile =
  cf_id :: string
  cf_file :: File
  cf_type :: FileType
  cf_preview :: "string option"
  cf_status :: ConversionStatus
  cf_progress :: number

record FileConverterState =
  s_files :: "ConvertibleFile list"
  isConverting :: bool
  overallProgress :: number
  s_result :: "ConversionResult option"
  s_error :: "string option"

text \<open>
  The body of the \<open>try\<close> block of \<open>convert\<close>: the files are grouped by type, and one
  converter is called. \<open>types\<close> is the set of the types present; when it has one element
  the \<open>switch\<close> on that type decides (its \<open>default\<close> takes \<open>'unknown'\<close> and every value that
  is no string of \<open>FileType\<close>), otherwise the chain of \<open>if\<close>s.
\<close>

definition dispatch :: "env \<Rightarrow> ConversionOptions \<Rightarrow> ConvertibleFile list \<Rightarrow> run" where
  "dispatch e options fs =
     (let imageFiles = map cf_file (filter (\<lambda>f. cf_type f = Image) fs);
          textFiles = map cf_file (filter (\<lambda>f. cf_type f = Text) fs);
          htmlFiles = map cf_file (filter (\<lambda>f. cf_type f = Html \<or> cf_type f = Markdown) fs);
          docxFiles = map cf_file (filter (\<lambda>f. cf_type f = Docx) fs);
          types = remdups (map cf_type fs)
      in if length types = 1 then
           (case hd types of
              Image \<Rightarrow> imagesToPdf e imageFiles options
            | Text \<Rightarrow>
                (if length textFiles = 1 then textToPdf e (hd textFiles) options
                 else textsToSinglePdf e textFiles options)
            | Html \<Rightarrow>
                (if length htmlFiles = 1 then htmlToPdf e (hd htmlFiles) options
                 else htmlsToSinglePdf e htmlFiles options)
            | Markdown \<Rightarrow>
                (if length htmlFiles = 1 then htmlToPdf e (hd htmlFiles) options
                 else htmlsToSinglePdf e htmlFiles options)
            | Docx \<Rightarrow>
                (if length docxFiles = 1 then docxToPdf e (hd docxFiles) options
                 else docxsToSinglePdf e docxFiles options)
            | Unknown \<Rightarrow> ([], Inl (Error ''Unsupported file type''))
            | Inherited k \<Rightarrow> ([], Inl (Error ''Unsupported file type'')))
         else if length imageFiles > 0 then imagesToPdf e imageFiles options
         else if length textFiles > 0 then textsToSinglePdf e textFiles options
         else if length htmlFiles > 0 then htmlsToSinglePdf e htmlFiles options
         else docxsToSinglePdf e docxFiles options)"

text \<open>
  \<open>convert\<close>: the values taken by \<open>overallProgress\<close> in order, and the state at the end. The
  first \<open>setState\<close> resets the progress to 0, every value reported by the converter is
  stored, and a successful run ends at 100.
\<close>

definition convert :: "env \<Rightarrow> ConversionOptions \<Rightarrow> FileConverterState
    \<Rightarrow> number list \<times> FileConverterState" where
  "convert e options state =
     (if length (s_files state) = 0 then ([], state\<lparr>s_error := Some ''No files to convert''\<rparr>)
      else
        (case dispatch e options (s_files state) of
           (trace, Inr result) \<Rightarrow>
             (0 # trace @ [100],
              state\<lparr>isConverting := False, overallProgress := 100, s_result := Some result,
                    s_error := None,
                    s_files := map (\<lambda>f. f\<lparr>cf_status := status_done, cf_progress := 100\<rparr>)
                                 (s_files state)\<rparr>)
         | (trace, Inl (Error msg)) \<Rightarrow>
             (0 # trace,
              state\<lparr>isConverting := False, overallProgress := last (0 # trace),
                    s_result := None, s_error := Some msg,
                    s_files := map (\<lambda>f. f\<lparr>cf_status := status_error\<rparr>) (s_files state)\<rparr>)))"

text \<open>
  The options the program is run with: the quality is a fraction in \<open>(0, 1]\<close> and the
  margin is not negative and less than half of the shorter side of the page, so that the
  content box has a positive width and height.
\<close>

definition options_ok :: "ConversionOptions \<Rightarrow> bool" where
  "options_ok options =
     (0 < quality options \<and> quality options \<le> 1 \<and> 0 \<le> margin options \<and>
      2 * margin options < min (fst (PAGE_SIZES (pageSize options)))
                               (snd (PAGE_SIZES (pageSize options))))"

section \<open>Notions used in the statements\<close>




text \<open>
  A progress trace that never decreases and stays between \<open>lo\<close> and \<open>hi\<close>.
\<close>

definition monotone_in :: "number \<Rightarrow> number \<Rightarrow> number list \<Rightarrow> bool" where
  "monotone_in lo hi trace = (sorted trace \<and> (\<forall>p \<in> set trace. lo \<le> p \<and> p \<le> hi))"

text \<open>
  The priority rule in the words of the specification: the groups in the fixed order
  image, text, html/markdown, docx, each with its multi-file converter, taken from top to
  bottom; the first group that is present in the batch is converted, and nothing else.
\<close>

definition group_of :: "(FileType \<Rightarrow> bool) \<Rightarrow> ConvertibleFile list \<Rightarrow> File list" where
  "group_of g fs = map cf_file (filter (\<lambda>f. g (cf_type f)) fs)"

definition priority_order ::
    "((FileType \<Rightarrow> bool) \<times> (env \<Rightarrow> File list \<Rightarrow> ConversionOptions \<Rightarrow> run)) list" where
  "priority_order =
     [((\<lambda>t. t = Image), imagesToPdf),
      ((\<lambda>t. t = Text), textsToSinglePdf),
      ((\<lambda>t. t = Html \<or> t = Markdown), htmlsToSinglePdf),
      ((\<lambda>t. t = Docx), docxsToSinglePdf)]"

definition priority_conversion :: "env \<Rightarrow> ConversionOptions \<Rightarrow> ConvertibleFile list \<Rightarrow> run" where
  "priority_conversion e options fs =
     (case find (\<lambda>(g, converter). group_of g fs \<noteq> []) priority_order of
        Some (g, converter) \<Rightarrow> converter e (group_of g fs) options
      | None \<Rightarrow> ([], Inl (Error ''No files to convert'')))"

text \<open>
  An image file the browser can load: it is read, it decodes, and the canvas of its
  constrained size has a drawing context.
\<close>

definition loadable :: "env \<Rightarrow> File \<Rightarrow> bool" where
  "loadable e f =
     (\<not> read_error e f \<and>
      (case decodeImage e (encodeDataURL e f) of
         None \<Rightarrow> False
       | Some (w, h) \<Rightarrow>
           context2d e (fst (constrainDimensions w h)) (snd (constrainDimensions w h))))"

text \<open>
  The archive and the decoded main entry of a DOCX file that is read, is parsed and has
  the entry \<open>word/document.xml\<close>; and the parts of the combined HTML that a list of
  files contributes, in order: for each file that has its main entry a heading with its
  name, its content and a page break, and nothing for the others.
\<close>

definition docx_content :: "env \<Rightarrow> File \<Rightarrow> (JSZip \<times> string) option" where
  "docx_content e g =
     (case readAsArrayBuffer e g of
        Inl err \<Rightarrow> None
      | Inr arrayBuffer \<Rightarrow>
     (case loadAsync e arrayBuffer of
        Inl err \<Rightarrow> None
      | Inr z \<Rightarrow>
     (case zip_file z ''word/document.xml'' of
        None \<Rightarrow> None
      | Some documentXml \<Rightarrow>
     (case async_string e documentXml of
        Inl err \<Rightarrow> None
      | Inr xmlContent \<Rightarrow> Some (z, xmlContent)))))"

definition collected_parts :: "env \<Rightarrow> File list \<Rightarrow> string list" where
  "collected_parts e files =
     concat (map (\<lambda>g. case docx_content e g of
                         Some (z, xmlContent) \<Rightarrow> docx_parts e g z xmlContent
                       | None \<Rightarrow> []) files)"

text \<open>The image data, or the text, of a drawing operation.\<close>

fun draw_data :: "draw \<Rightarrow> string" where
  "draw_data (addImage_op imgData fmt x y w h) = imgData"
| "draw_data (text_op str x y style) = str"

text \<open>
  A text without the characters that the passes of \<open>markdownToHtml\<close> react to inside a
  line: asterisk, backtick, opening bracket, \<open><\<close>, line feed and carriage return.
\<close>

definition plain :: "string \<Rightarrow> bool" where
  "plain s = (\<forall>c \<in> set s. c \<notin> set [CHR ''*'', CHR ''`'', CHR ''['', CHR ''<'', CHR 0x0A, CHR 0x0D])"

subsection \<open>An environment and inputs for the examples\<close>

text \<open>
  A browser in which nothing fails: every file is read, every image decodes to 800 by
  600 pixels, every canvas has a context, every HTML fragment renders to a canvas of
  1436 by 3000 pixels, text is wrapped at its line feeds only, and the bytes of an archive
  are the content of its single entry \<open>word/document.xml\<close>, except that the bytes
  \<open>no-document\<close> stand for an archive without that entry.
\<close>

definition example_env :: env where
  "example_env =
     \<lparr>read_error = (\<lambda>f. False),
      encodeDataURL = (\<lambda>f. ''data:'' @ file_type f @ '';base64,'' @ file_data f),
      decodeImage = (\<lambda>url. Some (800, 600)),
      context2d = (\<lambda>w h. True),
      toDataURL = (\<lambda>c mime q. ''data:'' @ mime @ '';base64,''),
      html2canvas = (\<lambda>htm w. Inr (1436, 3000)),
      splitTextToSize = (\<lambda>txt w. split_js CHR 0x0A txt),
      loadAsync = (\<lambda>bytes. if bytes = ''no-document'' then Inr []
                           else Inr [(''word/document.xml'',
                                      \<lparr>entry_dir = False, entry_data = bytes\<rparr>)]),
      async_string = (\<lambda>en. Inr (entry_data en)),
      async_base64 = (\<lambda>en. Inr (entry_data en))\<rparr>"

text \<open>
  The same browser with an encoder that keeps the source of a picture readable: the data
  of an encoded canvas is the HTML, or the data URL, that was drawn on it.
\<close>

fun picture_source :: "picture \<Rightarrow> string" where
  "picture_source Blank = []"
| "picture_source (Decoded url) = url"
| "picture_source (Rendered htm w) = htm"
| "picture_source (Drawn p box) = picture_source p"

definition tracing_env :: env where
  "tracing_env = example_env\<lparr>toDataURL := (\<lambda>c mime q. picture_source (cpicture c))\<rparr>"

definition example_options :: ConversionOptions where
  "example_options = \<lparr>pageSize = A4, quality = 9 / 10, margin = 10\<rparr>"

section \<open>The validator\<close>

lemma foldl_file_size:
  "foldl (\<lambda>sum f. sum + file_size f) a files = a + sum_list (map file_size files)"
  by (induction files arbitrary: a) simp_all

lemma validateEach_find:
  "validateEach files =
     (case find (\<lambda>f. \<not> valid (validateFile f)) files of
        None \<Rightarrow> \<lparr>valid = True, error = None, vtype = None\<rparr>
      | Some f \<Rightarrow> validateFile f)"
  by (induction files) (simp_all add: Let_def)

lemma valid_validateFile:
  "valid (validateFile f) \<longleftrightarrow> \<not> (file_size f > MAX_FILE_SIZE \<or> detectFileType f = Unknown)"
  by (simp add: validateFile_def Let_def)

lemma validateFiles_total:
  "validateFiles files =
     (if sum_list (map file_size files) > MAX_TOTAL_SIZE then
        \<lparr>valid = False,
         error = Some (''Total file size exceeds 50MB limit (''
                       @ formatFileSize (sum_list (map file_size files)) @ '')''),
         vtype = None\<rparr>
      else validateEach files)"
  by (simp add: validateFiles_def foldl_file_size Let_def)

lemma formatFileSize_over_total: "formatFileSize (MAX_TOTAL_SIZE + 1) = ''50.0 MB''"
  by (simp add: MAX_TOTAL_SIZE_def formatFileSize_def toFixed1_def show_nat.simps digit_char_def)

lemma formatFileSize_over_file: "formatFileSize (MAX_FILE_SIZE + 1) = ''10.0 MB''"
  by (simp add: MAX_FILE_SIZE_def formatFileSize_def toFixed1_def show_nat.simps digit_char_def)

lemma validateFiles_first_bad:
  "validateFiles files =
     (if sum_list (map file_size files) > MAX_TOTAL_SIZE then
        \<lparr>valid = False,
         error = Some (''Total file size exceeds 50MB limit (''
                       @ formatFileSize (sum_list (map file_size files)) @ '')''),
         vtype = None\<rparr>
      else
        (case find (\<lambda>f. file_size f > MAX_FILE_SIZE \<or> detectFileType f = Unknown) files of
           None \<Rightarrow> \<lparr>valid = True, error = None, vtype = None\<rparr>
         | Some f \<Rightarrow>
             (if file_size f > MAX_FILE_SIZE then
                \<lparr>valid = False,
                 error = Some (''File '' @ [CHR 0x22] @ file_name f @ [CHR 0x22] @
                               '' exceeds 10MB limit ('' @ formatFileSize (file_size f) @ '')''),
                 vtype = None\<rparr>
              else
                \<lparr>valid = False, error = Some (''Unsupported file type: '' @ file_name f),
                 vtype = None\<rparr>)))"
proof -
  let ?bad = "\<lambda>f. file_size f > MAX_FILE_SIZE \<or> detectFileType f = Unknown"
  have same: "(\<lambda>f. \<not> valid (validateFile f)) = ?bad"
    by (simp add: valid_validateFile fun_eq_iff)
  have each: "validateEach files =
     (case find ?bad files of
        None \<Rightarrow> \<lparr>valid = True, error = None, vtype = None\<rparr>
      | Some f \<Rightarrow> validateFile f)"
    using validateEach_find [of files] unfolding same .
  show ?thesis
  proof (cases "find ?bad files")
    case None
    then show ?thesis
      unfolding validateFiles_total each by simp
  next
    case (Some f)
    then have "?bad f"
      by (auto simp: find_Some_iff)
    then have "validateFile f =
       (if file_size f > MAX_FILE_SIZE then
          \<lparr>valid = False,
           error = Some (''File '' @ [CHR 0x22] @ file_name f @ [CHR 0x22] @
                         '' exceeds 10MB limit ('' @ formatFileSize (file_size f) @ '')''),
           vtype = None\<rparr>
        else
          \<lparr>valid = False, error = Some (''Unsupported file type: '' @ file_name f),
           vtype = None\<rparr>)"
      by (auto simp: validateFile_def Let_def)
    with Some show ?thesis
      unfolding validateFiles_total each by simp
  qed
qed

lemma find_bad_append:
  "\<forall>f \<in> set xs. \<not> P f \<Longrightarrow> P u \<Longrightarrow> find P (xs @ u # ys) = Some u"
  by (induction xs) simp_all

text \<open>
  A file whose MIME type is the name of an inherited property is classified with the
  value found there, and passes the validation.
\<close>

lemma validateFiles_inherited:
  "detectFileType \<lparr>file_name = ''data.bin'', file_type = ''constructor'', file_size = 3, file_data = []\<rparr>
     = Inherited ''constructor'' \<and>
   validateFiles [\<lparr>file_name = ''data.bin'', file_type = ''constructor'', file_size = 3, file_data = []\<rparr>]
     = \<lparr>valid = True, error = None, vtype = None\<rparr>"
  by (simp add: validateFiles_def validateFile_def MAX_TOTAL_SIZE_def MAX_FILE_SIZE_def
        detectFileType_def lookup_def OBJECT_PROTOTYPE_def SUPPORTED_MIME_TYPES_def)

text \<open>
  C2. A batch whose total is exactly the aggregate ceiling passes the validation (its
  files being within the per-file ceiling and of a supported type, as the third part of
  the claim requires of every batch that passes); a batch whose total is one byte over the
  aggregate ceiling fails with the aggregate-limit message, whatever its files; a batch
  that holds a file one byte over the per-file ceiling fails whatever its total, and when
  that file is the whole batch the message is the per-file one.
\<close>

theorem validateFiles_boundaries:
  "(sum_list (map file_size files1) = MAX_TOTAL_SIZE \<and>
    (\<forall>f \<in> set files1. file_size f \<le> MAX_FILE_SIZE \<and> detectFileType f \<noteq> Unknown)
      \<longrightarrow> validateFiles files1 = \<lparr>valid = True, error = None, vtype = None\<rparr>) \<and>
   (sum_list (map file_size files2) = MAX_TOTAL_SIZE + 1
      \<longrightarrow> validateFiles files2 =
            \<lparr>valid = False,
             error = Some ''Total file size exceeds 50MB limit (50.0 MB)'', vtype = None\<rparr>) \<and>
   (g \<in> set files3 \<and> file_size g = MAX_FILE_SIZE + 1 \<longrightarrow> \<not> valid (validateFiles files3)) \<and>
   (file_size g = MAX_FILE_SIZE + 1
      \<longrightarrow> validateFiles [g] =
            \<lparr>valid = False,
             error = Some (''File '' @ [CHR 0x22] @ file_name g @ [CHR 0x22]
                           @ '' exceeds 10MB limit (10.0 MB)''),
             vtype = None\<rparr>)"
proof (intro conjI impI)
  assume h: "sum_list (map file_size files1) = MAX_TOTAL_SIZE \<and>
    (\<forall>f \<in> set files1. file_size f \<le> MAX_FILE_SIZE \<and> detectFileType f \<noteq> Unknown)"
  then have "find (\<lambda>f. file_size f > MAX_FILE_SIZE \<or> detectFileType f = Unknown) files1 = None"
    by (auto simp: find_None_iff)
  with h show "validateFiles files1 = \<lparr>valid = True, error = None, vtype = None\<rparr>"
    by (simp add: validateFiles_first_bad)
next
  assume "sum_list (map file_size files2) = MAX_TOTAL_SIZE + 1"
  then show "validateFiles files2 =
      \<lparr>valid = False, error = Some ''Total file size exceeds 50MB limit (50.0 MB)'', vtype = None\<rparr>"
    using formatFileSize_over_total by (simp add: validateFiles_total)
next
  assume h: "g \<in> set files3 \<and> file_size g = MAX_FILE_SIZE + 1"
  show "\<not> valid (validateFiles files3)"
  proof (cases "sum_list (map file_size files3) > MAX_TOTAL_SIZE")
    case True
    then show ?thesis
      by (simp add: validateFiles_total)
  next
    case False
    from h have "\<not> valid (validateFile g)"
      by (simp add: valid_validateFile)
    with h obtain b where "find (\<lambda>f. \<not> valid (validateFile f)) files3 = Some b"
      by (cases "find (\<lambda>f. \<not> valid (validateFile f)) files3") (auto simp: find_None_iff)
    moreover from this have "\<not> valid (validateFile b)"
      by (auto simp: find_Some_iff)
    ultimately show ?thesis
      using False by (simp add: validateFiles_total validateEach_find)
  qed
next
  assume h: "file_size g = MAX_FILE_SIZE + 1"
  have "MAX_FILE_SIZE + 1 \<le> MAX_TOTAL_SIZE"
    by (simp add: MAX_FILE_SIZE_def MAX_TOTAL_SIZE_def)
  with h show "validateFiles [g] =
      \<lparr>valid = False,
       error = Some (''File '' @ [CHR 0x22] @ file_name g @ [CHR 0x22]
                     @ '' exceeds 10MB limit (10.0 MB)''),
       vtype = None\<rparr>"
    using formatFileSize_over_file by (simp add: validateFiles_total validateFile_def Let_def)
qed

text \<open>
  A batch for the theorem: five PNG files of 10 MiB, the same with one more byte in a
  sixth file, and a single file of 10 MiB and one byte.
\<close>

theorem validateFiles_boundaries_witness:
  "validateFiles [\<lparr>file_name = ''scan.png'', file_type = ''image/png'', file_size = 10485760, file_data = []\<rparr>,
        \<lparr>file_name = ''scan.png'', file_type = ''image/png'', file_size = 10485760, file_data = []\<rparr>,
        \<lparr>file_name = ''scan.png'', file_type = ''image/png'', file_size = 10485760, file_data = []\<rparr>,
        \<lparr>file_name = ''scan.png'', file_type = ''image/png'', file_size = 10485760, file_data = []\<rparr>,
        \<lparr>file_name = ''scan.png'', file_type = ''image/png'', file_size = 10485760, file_data = []\<rparr>]
     = \<lparr>valid = True, error = None, vtype = None\<rparr> \<and>
   validateFiles (\<lparr>file_name = ''note.txt'', file_type = ''text/plain'', file_size = 1, file_data = []\<rparr>
                  # [\<lparr>file_name = ''scan.png'', file_type = ''image/png'', file_size = 10485760, file_data = []\<rparr>,
        \<lparr>file_name = ''scan.png'', file_type = ''image/png'', file_size = 10485760, file_data = []\<rparr>,
        \<lparr>file_name = ''scan.png'', file_type = ''image/png'', file_size = 10485760, file_data = []\<rparr>,
        \<lparr>file_name = ''scan.png'', file_type = ''image/png'', file_size = 10485760, file_data = []\<rparr>,
        \<lparr>file_name = ''scan.png'', file_type = ''image/png'', file_size = 10485760, file_data = []\<rparr>])
     = \<lparr>valid = False, error = Some ''Total file size exceeds 50MB limit (50.0 MB)'', vtype = None\<rparr> \<and>
   \<not> valid (validateFiles [\<lparr>file_name = ''big.png'', file_type = ''image/png'',
                              file_size = 10485761, file_data = []\<rparr>]) \<and>
   validateFiles [\<lparr>file_name = ''big.png'', file_type = ''image/png'',
                   file_size = 10485761, file_data = []\<rparr>]
     = \<lparr>valid = False,
        error = Some (''File '' @ [CHR 0x22] @ ''big.png'' @ [CHR 0x22] @ '' exceeds 10MB limit (10.0 MB)''),
        vtype = None\<rparr>"
  using validateFiles_boundaries
    [of "[\<lparr>file_name = ''scan.png'', file_type = ''image/png'', file_size = 10485760, file_data = []\<rparr>,
        \<lparr>file_name = ''scan.png'', file_type = ''image/png'', file_size = 10485760, file_data = []\<rparr>,
        \<lparr>file_name = ''scan.png'', file_type = ''image/png'', file_size = 10485760, file_data = []\<rparr>,
        \<lparr>file_name = ''scan.png'', file_type = ''image/png'', file_size = 10485760, file_data = []\<rparr>,
        \<lparr>file_name = ''scan.png'', file_type = ''image/png'', file_size = 10485760, file_data = []\<rparr>]"
        "\<lparr>file_name = ''note.txt'', file_type = ''text/plain'', file_size = 1, file_data = []\<rparr>
         # [\<lparr>file_name = ''scan.png'', file_type = ''image/png'', file_size = 10485760, file_data = []\<rparr>,
        \<lparr>file_name = ''scan.png'', file_type = ''image/png'', file_size = 10485760, file_data = []\<rparr>,
        \<lparr>file_name = ''scan.png'', file_type = ''image/png'', file_size = 10485760, file_data = []\<rparr>,
        \<lparr>file_name = ''scan.png'', file_type = ''image/png'', file_size = 10485760, file_data = []\<rparr>,
        \<lparr>file_name = ''scan.png'', file_type = ''image/png'', file_size = 10485760, file_data = []\<rparr>]"
        "\<lparr>file_name = ''big.png'', file_type = ''image/png'', file_size = 10485761, file_data = []\<rparr>"
        "[\<lparr>file_name = ''big.png'', file_type = ''image/png'', file_size = 10485761, file_data = []\<rparr>]"]
  by (simp add: MAX_TOTAL_SIZE_def MAX_FILE_SIZE_def detectFileType_def lookup_def OBJECT_PROTOTYPE_def SUPPORTED_MIME_TYPES_def)

text \<open>
  C3, as the code has it. The aggregate ceiling is checked first. Then the files are
  taken in the order of the list, and for each file its size is checked before its type:
  the first file that is over the per-file ceiling or of an unsupported type decides the
  error, and no later file is looked at. So when a file of unsupported type (within the
  per-file ceiling) comes after valid files only, the batch being within the aggregate
  ceiling, the error is the unsupported type of that file, whatever follows it, an
  oversized file included.
\<close>

theorem validateFiles_order:
  "validateFiles files =
     (if sum_list (map file_size files) > MAX_TOTAL_SIZE then
        \<lparr>valid = False,
         error = Some (''Total file size exceeds 50MB limit (''
                       @ formatFileSize (sum_list (map file_size files)) @ '')''),
         vtype = None\<rparr>
      else
        (case find (\<lambda>f. file_size f > MAX_FILE_SIZE \<or> detectFileType f = Unknown) files of
           None \<Rightarrow> \<lparr>valid = True, error = None, vtype = None\<rparr>
         | Some f \<Rightarrow>
             (if file_size f > MAX_FILE_SIZE then
                \<lparr>valid = False,
                 error = Some (''File '' @ [CHR 0x22] @ file_name f @ [CHR 0x22] @
                               '' exceeds 10MB limit ('' @ formatFileSize (file_size f) @ '')''),
                 vtype = None\<rparr>
              else
                \<lparr>valid = False, error = Some (''Unsupported file type: '' @ file_name f),
                 vtype = None\<rparr>))) \<and>
   (sum_list (map file_size (xs @ u # ys)) \<le> MAX_TOTAL_SIZE \<and>
    (\<forall>f \<in> set xs. valid (validateFile f)) \<and>
    file_size u \<le> MAX_FILE_SIZE \<and> detectFileType u = Unknown
      \<longrightarrow> validateFiles (xs @ u # ys) =
            \<lparr>valid = False, error = Some (''Unsupported file type: '' @ file_name u),
             vtype = None\<rparr>)"
proof (intro conjI impI)
  show "validateFiles files =
     (if sum_list (map file_size files) > MAX_TOTAL_SIZE then
        \<lparr>valid = False,
         error = Some (''Total file size exceeds 50MB limit (''
                       @ formatFileSize (sum_list (map file_size files)) @ '')''),
         vtype = None\<rparr>
      else
        (case find (\<lambda>f. file_size f > MAX_FILE_SIZE \<or> detectFileType f = Unknown) files of
           None \<Rightarrow> \<lparr>valid = True, error = None, vtype = None\<rparr>
         | Some f \<Rightarrow>
             (if file_size f > MAX_FILE_SIZE then
                \<lparr>valid = False,
                 error = Some (''File '' @ [CHR 0x22] @ file_name f @ [CHR 0x22] @
                               '' exceeds 10MB limit ('' @ formatFileSize (file_size f) @ '')''),
                 vtype = None\<rparr>
              else
                \<lparr>valid = False, error = Some (''Unsupported file type: '' @ file_name f),
                 vtype = None\<rparr>)))"
    by (rule validateFiles_first_bad)
next
  assume h: "sum_list (map file_size (xs @ u # ys)) \<le> MAX_TOTAL_SIZE \<and>
    (\<forall>f \<in> set xs. valid (validateFile f)) \<and>
    file_size u \<le> MAX_FILE_SIZE \<and> detectFileType u = Unknown"
  then have "find (\<lambda>f. file_size f > MAX_FILE_SIZE \<or> detectFileType f = Unknown) (xs @ u # ys)
      = Some u"
    by (intro find_bad_append) (auto simp: valid_validateFile)
  with h show "validateFiles (xs @ u # ys) =
      \<lparr>valid = False, error = Some (''Unsupported file type: '' @ file_name u), vtype = None\<rparr>"
    unfolding validateFiles_first_bad [of "xs @ u # ys"] by simp
qed

text \<open>
  A valid text file, then a file of unknown type, then a PNG file over the per-file
  ceiling: the error names the file of unknown type.
\<close>

theorem validateFiles_order_witness:
  "validateFiles
     [\<lparr>file_name = ''ok.txt'', file_type = ''text/plain'', file_size = 12, file_data = []\<rparr>,
      \<lparr>file_name = ''data.bin'', file_type = [], file_size = 3, file_data = []\<rparr>,
      \<lparr>file_name = ''huge.png'', file_type = ''image/png'', file_size = 20971520, file_data = []\<rparr>]
   = \<lparr>valid = False, error = Some ''Unsupported file type: data.bin'', vtype = None\<rparr>"
  using validateFiles_order
    [of "[]"
        "[\<lparr>file_name = ''ok.txt'', file_type = ''text/plain'', file_size = 12, file_data = []\<rparr>]"
        "\<lparr>file_name = ''data.bin'', file_type = [], file_size = 3, file_data = []\<rparr>"
        "[\<lparr>file_name = ''huge.png'', file_type = ''image/png'', file_size = 20971520, file_data = []\<rparr>]"]
  by (simp add: MAX_TOTAL_SIZE_def MAX_FILE_SIZE_def detectFileType_def lookup_def OBJECT_PROTOTYPE_def SUPPORTED_MIME_TYPES_def
        EXTENSION_TO_TYPE_def toLowerCase_def lower_char_def validateFile_def)

text \<open>
  C3 as it is written fails: with a file of unsupported type first and a PNG file of
  11 MiB second, the reported violation is the unsupported type, not the size limit.
\<close>

theorem validateFiles_order_counterexample:
  "detectFileType \<lparr>file_name = ''notes.xyz'', file_type = [], file_size = 5, file_data = []\<rparr> = Unknown \<and>
   file_size \<lparr>file_name = ''big.png'', file_type = ''image/png'', file_size = 11534336, file_data = []\<rparr>
     > MAX_FILE_SIZE \<and>
   validateFiles
     [\<lparr>file_name = ''notes.xyz'', file_type = [], file_size = 5, file_data = []\<rparr>,
      \<lparr>file_name = ''big.png'', file_type = ''image/png'', file_size = 11534336, file_data = []\<rparr>]
   = \<lparr>valid = False, error = Some ''Unsupported file type: notes.xyz'', vtype = None\<rparr>"
  by (simp add: validateFiles_def validateFile_def MAX_TOTAL_SIZE_def MAX_FILE_SIZE_def
        detectFileType_def lookup_def OBJECT_PROTOTYPE_def SUPPORTED_MIME_TYPES_def EXTENSION_TO_TYPE_def toLowerCase_def
        lower_char_def)

section \<open>Empty batches\<close>

text \<open>
  C10. The validator accepts the empty list of files, and each of the four batch
  converters throws on the empty list: \<open>No images to convert\<close> for the images,
  \<open>No files to convert\<close> for the texts, the HTML documents and the DOCX documents.
\<close>

theorem empty_batch:
  "validateFiles [] = \<lparr>valid = True, error = None, vtype = None\<rparr> \<and>
   imagesToPdf e [] options = ([], Inl (Error ''No images to convert'')) \<and>
   textsToSinglePdf e [] options = ([], Inl (Error ''No files to convert'')) \<and>
   htmlsToSinglePdf e [] options = ([], Inl (Error ''No files to convert'')) \<and>
   docxsToSinglePdf e [] options = ([], Inl (Error ''No files to convert''))"
  by (simp add: validateFiles_def imagesToPdf_def textsToSinglePdf_def htmlsToSinglePdf_def
        docxsToSinglePdf_def MAX_TOTAL_SIZE_def)

section \<open>Image placement\<close>




section \<open>Text pagination\<close>











section \<open>Progress\<close>

lemma monotone_in_Nil: "monotone_in lo hi []"
  by (simp add: monotone_in_def)

lemma monotone_in_Cons:
  "lo \<le> p \<Longrightarrow> p \<le> hi \<Longrightarrow> monotone_in p hi trace \<Longrightarrow> monotone_in lo hi (p # trace)"
  by (auto simp: monotone_in_def)

lemma monotone_in_append:
  "monotone_in a b xs \<Longrightarrow> monotone_in b c ys \<Longrightarrow> a \<le> b \<Longrightarrow> b \<le> c \<Longrightarrow> monotone_in a c (xs @ ys)"
  by (fastforce simp: monotone_in_def sorted_append)

lemma monotone_in_weaken:
  "monotone_in a b xs \<Longrightarrow> a' \<le> a \<Longrightarrow> b \<le> b' \<Longrightarrow> monotone_in a' b' xs"
  by (fastforce simp: monotone_in_def)

lemma monotone_in_map:
  assumes "monotone_in a b xs" and "0 \<le> k"
  shows "monotone_in (c + a * k) (c + b * k) (map (\<lambda>p. c + p * k) xs)"
proof -
  have "sorted (map (\<lambda>p. c + p * k) xs)"
    using assms by (auto simp: monotone_in_def sorted_map intro!: sorted_wrt_mono_rel [of xs "(\<le>)"] mult_right_mono)
  then show ?thesis
    using assms by (auto simp: monotone_in_def intro: mult_right_mono)
qed

lemma frac_mono: "i \<le> j \<Longrightarrow> real i / real n * c \<le> real j / real n * c" if "0 \<le> c" for c :: real
  using that by (intro mult_right_mono divide_right_mono) simp_all

lemma frac_le: "i \<le> n \<Longrightarrow> real i / real n * c \<le> c" if "0 \<le> c" for c :: real
proof -
  assume "i \<le> n"
  then have "real i / real n \<le> 1"
    by (cases "n = 0") (simp_all add: field_simps)
  then have "real i / real n * c \<le> 1 * c"
    using that by (intro mult_right_mono)
  then show ?thesis by simp
qed

lemma imagesLoop_progress:
  assumes "i + length files \<le> n" and "imagesLoop e options n i files pdf = (trace, out)"
  shows "monotone_in (real i / real n * 100) 100 trace"
  using assms
proof (induction files arbitrary: i pdf trace out)
  case Nil
  then show ?case by (simp add: monotone_in_Nil)
next
  case (Cons f rest)
  have lo: "real i / real n * 100 \<le> real (Suc i) / real n * 100"
    by (rule frac_mono) simp_all
  have hi: "real i / real n * 100 \<le> 100"
    using Cons.prems(1) by (intro frac_le) simp_all
  have single: "monotone_in (real i / real n * 100) 100 [real i / real n * 100]"
    using hi by (simp add: monotone_in_def)
  have step: "monotone_in (real i / real n * 100) 100 (real i / real n * 100 # tr)"
    if "imagesLoop e options n (Suc i) rest pdf' = (tr, out')" for pdf' tr out'
  proof -
    have "monotone_in (real (Suc i) / real n * 100) 100 tr"
      using Cons.prems(1) that by (intro Cons.IH [of "Suc i" pdf' tr out']) simp_all
    then have "monotone_in (real i / real n * 100) 100 tr"
      using lo by (rule monotone_in_weaken) simp_all
    then show ?thesis
      using hi by (intro monotone_in_Cons) simp_all
  qed
  from Cons.prems(2) show ?case
    using single step
    by (auto simp: Let_def split: sum.splits prod.splits option.splits if_splits)
qed


lemma textLoop_progress:
  assumes "i + length lines \<le> N" and "textLoop mrg ph N i lines st = (trace, st')"
  shows "monotone_in (50 + real i / real N * 50) 100 trace"
  using assms
proof (induction lines arbitrary: i st trace st')
  case Nil
  then show ?case by (simp add: monotone_in_Nil)
next
  case (Cons line rest)
  obtain pdf c y where st: "st = (pdf, c, y)"
    by (cases st) auto
  have lo: "50 + real i / real N * 50 \<le> 50 + real (Suc i) / real N * 50"
    using frac_mono [of 50 i "Suc i" N] by simp
  have hi: "50 + real i / real N * 50 \<le> 100"
    using frac_le [of 50 i N] Cons.prems(1) by simp
  obtain st1 tr where rec: "textLoop mrg ph N (Suc i) rest st1 = (tr, st')"
    and trace: "trace = (if i mod 50 = 0 then [50 + real i / real N * 50] else []) @ tr"
    using Cons.prems(2)
    by (auto simp: st Let_def split: prod.splits if_splits)
  have "monotone_in (50 + real (Suc i) / real N * 50) 100 tr"
    using Cons.prems(1) rec by (intro Cons.IH [of "Suc i" st1 tr st']) simp_all
  then have tr: "monotone_in (50 + real i / real N * 50) 100 tr"
    using lo by (rule monotone_in_weaken) simp_all
  show ?case
  proof (cases "i mod 50 = 0")
    case True
    then show ?thesis
      using tr hi by (simp add: trace monotone_in_Cons)
  next
    case False
    then show ?thesis
      using tr by (simp add: trace)
  qed
qed

lemma textsFileLoop_progress:
  assumes "i + length files \<le> n" and "textsFileLoop e options n i files st = (trace, out)"
  shows "monotone_in (real i / real n * 100) 100 trace"
  using assms
proof (induction files arbitrary: i st trace out)
  case Nil
  then show ?case
    by (cases st) (simp add: monotone_in_Nil)
next
  case (Cons f rest)
  obtain pdf tp y first where st: "st = (pdf, tp, y, first)"
    by (cases st) auto
  have lo: "real i / real n * 100 \<le> real (Suc i) / real n * 100"
    by (rule frac_mono) simp_all
  have hi: "real i / real n * 100 \<le> 100"
    using Cons.prems(1) by (intro frac_le) simp_all
  have step: "monotone_in (real i / real n * 100) 100 (real i / real n * 100 # tr)"
    if "textsFileLoop e options n (Suc i) rest st1 = (tr, out')" for st1 tr out'
  proof -
    have "monotone_in (real (Suc i) / real n * 100) 100 tr"
      using Cons.prems(1) that by (intro Cons.IH [of "Suc i" st1 tr out']) simp_all
    then have "monotone_in (real i / real n * 100) 100 tr"
      using lo by (rule monotone_in_weaken) simp_all
    then show ?thesis
      using hi by (intro monotone_in_Cons) simp_all
  qed
  from Cons.prems(2) show ?case
    using step
    by (auto simp: st Let_def monotone_in_Nil split: sum.splits prod.splits if_splits)
qed

lemma pagesLoop_progress:
  assumes "k = 0 \<or> int (p + k) \<le> T"
    and "pagesLoop e options cv chpx cwmm T p k pdf = (trace, out)"
  shows "monotone_in (70 + real p / real_of_int T * 30) 100 trace"
  using assms
proof (induction k arbitrary: p pdf trace out)
  case 0
  then show ?case by (simp add: monotone_in_Nil)
next
  case (Suc k)
  then have T: "int (p + Suc k) \<le> T"
    by simp
  then have Tpos: "0 < real_of_int T"
    by simp
  have lo: "70 + real p / real_of_int T * 30 \<le> 70 + real (Suc p) / real_of_int T * 30"
    using Tpos by (simp add: field_simps)
  have "real p \<le> real_of_int T"
    using T by linarith
  then have hi: "70 + real p / real_of_int T * 30 \<le> 100"
    using Tpos by (simp add: field_simps)
  have step: "monotone_in (70 + real p / real_of_int T * 30) 100 tr"
    if "pagesLoop e options cv chpx cwmm T (Suc p) k pdf' = (tr, out')" for pdf' tr out'
  proof -
    have "monotone_in (70 + real (Suc p) / real_of_int T * 30) 100 tr"
      using T that by (intro Suc.IH [of "Suc p" pdf' tr out']) simp_all
    then show ?thesis
      using lo by (rule monotone_in_weaken) simp_all
  qed
  from Suc.prems(2) show ?case
    using step hi
    by (auto simp: Let_def monotone_in_Nil intro!: monotone_in_Cons split: sum.splits prod.splits)
qed

lemma htmlsFileLoop_progress:
  assumes "i + length files \<le> n" and "htmlsFileLoop e options n i files st = (trace, out)"
  shows "monotone_in (real i / real n * 100) 100 trace"
  using assms
proof (induction files arbitrary: i st trace out)
  case Nil
  then show ?case by (simp add: monotone_in_Nil)
next
  case (Cons f rest)
  have lo: "real i / real n * 100 \<le> real (Suc i) / real n * 100"
    by (rule frac_mono) simp_all
  have hi: "real (Suc i) / real n * 100 \<le> 100"
    using Cons.prems(1) by (intro frac_le) simp_all
  have step: "monotone_in (real i / real n * 100) 100 (real (Suc i) / real n * 100 # tr)"
    if "htmlsFileLoop e options n (Suc i) rest st1 = (tr, out')" for st1 tr out'
  proof -
    have "monotone_in (real (Suc i) / real n * 100) 100 tr"
      using Cons.prems(1) that by (intro Cons.IH [of "Suc i" st1 tr out']) simp_all
    then show ?thesis
      using hi lo by (intro monotone_in_Cons) simp_all
  qed
  from Cons.prems(2) show ?case
    using step
    by (auto simp: Let_def monotone_in_Nil split: sum.splits prod.splits if_splits)
qed

lemma rescale_progress:
  assumes "monotone_in 0 100 trace" and "0 \<le> k" and "c + 100 * k = 100" and "0 \<le> c"
  shows "monotone_in c 100 (map (\<lambda>progress. c + progress * k) trace)"
proof -
  have "monotone_in (c + 0 * k) (c + 100 * k) (map (\<lambda>p. c + p * k) trace)"
    using assms(1,2) by (rule monotone_in_map)
  then show ?thesis
    using assms(3) by simp
qed

lemma docxsLoop_progress:
  assumes "i + length files \<le> n" and "docxsLoop e n i files parts = (trace, out)"
  shows "monotone_in (real i / real n * 50) 50 trace"
  using assms
proof (induction files arbitrary: i parts trace out)
  case Nil
  then show ?case by (simp add: monotone_in_Nil)
next
  case (Cons f rest)
  have lo: "real i / real n * 50 \<le> real (Suc i) / real n * 50"
    by (rule frac_mono) simp_all
  have hi: "real i / real n * 50 \<le> 50"
    using Cons.prems(1) by (intro frac_le) simp_all
  have single: "monotone_in (real i / real n * 50) 50 [real i / real n * 50]"
    using hi by (simp add: monotone_in_def)
  have step: "monotone_in (real i / real n * 50) 50 (real i / real n * 50 # tr)"
    if "docxsLoop e n (Suc i) rest parts' = (tr, out')" for parts' tr out'
  proof -
    have "monotone_in (real (Suc i) / real n * 50) 50 tr"
      using Cons.prems(1) that by (intro Cons.IH [of "Suc i" parts' tr out']) simp_all
    then have "monotone_in (real i / real n * 50) 50 tr"
      using lo by (rule monotone_in_weaken) simp_all
    then show ?thesis
      using hi by (intro monotone_in_Cons) simp_all
  qed
  from Cons.prems(2) show ?case
    using single step
    by (auto simp: Let_def split: sum.splits prod.splits option.splits if_splits)
qed

lemma imagesLoop_trace:
  "monotone_in 0 100 (fst (imagesLoop e options (length files) 0 files pdf))"
  using imagesLoop_progress [of 0 files "length files" e options pdf
      "fst (imagesLoop e options (length files) 0 files pdf)"
      "snd (imagesLoop e options (length files) 0 files pdf)"]
  by simp

lemma textLoop_trace:
  "monotone_in 50 100 (fst (textLoop mrg ph (length lines) 0 lines st))"
  using textLoop_progress [of 0 lines "length lines" mrg ph st
      "fst (textLoop mrg ph (length lines) 0 lines st)"
      "snd (textLoop mrg ph (length lines) 0 lines st)"]
  by simp

lemma textsFileLoop_trace:
  "monotone_in 0 100 (fst (textsFileLoop e options (length files) 0 files st))"
  using textsFileLoop_progress [of 0 files "length files" e options st
      "fst (textsFileLoop e options (length files) 0 files st)"
      "snd (textsFileLoop e options (length files) 0 files st)"]
  by simp

lemma pagesLoop_trace:
  "monotone_in 70 100 (fst (pagesLoop e options cv chpx cwmm T 0 (nat T) pdf))"
proof -
  have "nat T = 0 \<or> int (0 + nat T) \<le> T"
    by linarith
  then have "monotone_in (70 + real 0 / real_of_int T * 30) 100
      (fst (pagesLoop e options cv chpx cwmm T 0 (nat T) pdf))"
    by (rule pagesLoop_progress
        [where out = "snd (pagesLoop e options cv chpx cwmm T 0 (nat T) pdf)"]) simp
  then show ?thesis
    by simp
qed

lemma htmlsFileLoop_trace:
  "monotone_in 0 100 (fst (htmlsFileLoop e options (length files) 0 files st))"
  using htmlsFileLoop_progress [of 0 files "length files" e options st
      "fst (htmlsFileLoop e options (length files) 0 files st)"
      "snd (htmlsFileLoop e options (length files) 0 files st)"]
  by simp

lemma docxsLoop_trace:
  "monotone_in 0 50 (fst (docxsLoop e (length files) 0 files parts))"
  using docxsLoop_progress [of 0 files "length files" e parts
      "fst (docxsLoop e (length files) 0 files parts)"
      "snd (docxsLoop e (length files) 0 files parts)"]
  by simp

lemma monotone_in_done: "monotone_in 0 100 trace \<Longrightarrow> monotone_in 0 100 (trace @ [100])"
  by (fastforce simp: monotone_in_def sorted_append)

lemma monotone_in_0: "monotone_in lo hi trace \<Longrightarrow> 0 \<le> lo \<Longrightarrow> hi \<le> 100 \<Longrightarrow> monotone_in 0 100 trace"
  by (rule monotone_in_weaken)

lemma monotone_in_text:
  assumes "monotone_in 50 100 trace"
  shows "monotone_in 0 100 (10 # 30 # 50 # trace @ [100])"
proof -
  have "monotone_in 50 100 (trace @ [100])"
    using assms by (rule monotone_in_append) (simp_all add: monotone_in_def)
  then have "monotone_in 0 100 ([10, 30, 50] @ (trace @ [100]))"
    by (intro monotone_in_append [of 0 50]) (simp_all add: monotone_in_def)
  then show ?thesis by simp
qed

lemma monotone_in_html:
  assumes "monotone_in 70 100 trace"
  shows "monotone_in 0 100 (10 # 20 # 40 # 70 # trace)"
    and "monotone_in 0 100 (10 # 20 # 40 # 70 # trace @ [100])"
proof -
  have "monotone_in 0 100 ([10, 20, 40, 70] @ trace)"
    using assms by (intro monotone_in_append [of 0 70]) (simp_all add: monotone_in_def)
  then show "monotone_in 0 100 (10 # 20 # 40 # 70 # trace)" by simp
  have "monotone_in 70 100 (trace @ [100])"
    using assms by (rule monotone_in_append) (simp_all add: monotone_in_def)
  then have "monotone_in 0 100 ([10, 20, 40, 70] @ (trace @ [100]))"
    by (intro monotone_in_append [of 0 70]) (simp_all add: monotone_in_def)
  then show "monotone_in 0 100 (10 # 20 # 40 # 70 # trace @ [100])" by simp
qed

lemma imagesToPdf_progress: "monotone_in 0 100 (fst (imagesToPdf e files options))"
  using imagesLoop_trace [of e options files None]
  by (simp add: imagesToPdf_def split_beta monotone_in_Nil monotone_in_done
      split: sum.split option.split)

lemma textToPdf_progress: "monotone_in 0 100 (fst (textToPdf e file options))"
  by (simp add: textToPdf_def Let_def split_beta monotone_in_def [of 0 100 "[10]"]
      monotone_in_text textLoop_trace split: sum.split)

lemma textsToSinglePdf_progress: "monotone_in 0 100 (fst (textsToSinglePdf e files options))"
  by (simp add: textsToSinglePdf_def Let_def split_beta monotone_in_Nil monotone_in_done
      textsFileLoop_trace split: sum.split)

lemma htmlToPdf_progress: "monotone_in 0 100 (fst (htmlToPdf e file options))"
  by (simp add: htmlToPdf_def Let_def split_beta monotone_in_def [of 0 100 "[10]"]
      monotone_in_def [of 0 100 "[10, 20, 40]"] monotone_in_html pagesLoop_trace
      split: sum.split)

lemma htmlsToSinglePdf_progress: "monotone_in 0 100 (fst (htmlsToSinglePdf e files options))"
  by (simp add: htmlsToSinglePdf_def split_beta monotone_in_Nil monotone_in_done
      htmlsFileLoop_trace split: sum.split option.split)

lemma monotone_in_docx:
  assumes "monotone_in 0 100 trace"
  shows "monotone_in 0 100 (10 # 20 # 30 # 40 # 50 # 60 # map (\<lambda>progress. 60 + progress * (4 / 10)) trace)"
proof -
  have "monotone_in 60 100 (map (\<lambda>progress. 60 + progress * (4 / 10)) trace)"
    using assms by (rule rescale_progress) simp_all
  then have "monotone_in 0 100 ([10, 20, 30, 40, 50, 60]
      @ map (\<lambda>progress. 60 + progress * (4 / 10)) trace)"
    by (intro monotone_in_append [of 0 60]) (simp_all add: monotone_in_def)
  then show ?thesis by simp
qed

lemma monotone_in_docxs:
  assumes "monotone_in 0 50 trace" and "monotone_in 0 100 trace2"
  shows "monotone_in 0 100 (trace @ 50 # map (\<lambda>progress. 50 + progress * (5 / 10)) trace2)"
proof -
  have "monotone_in 50 100 (map (\<lambda>progress. 50 + progress * (5 / 10)) trace2)"
    using assms(2) by (rule rescale_progress) simp_all
  then have "monotone_in 50 100 ([50] @ map (\<lambda>progress. 50 + progress * (5 / 10)) trace2)"
    by (intro monotone_in_append [of 50 50]) (simp_all add: monotone_in_def)
  with assms(1) have "monotone_in 0 100 (trace @ ([50]
      @ map (\<lambda>progress. 50 + progress * (5 / 10)) trace2))"
    by (rule monotone_in_append) simp_all
  then show ?thesis by simp
qed

lemma docxToPdf_progress: "monotone_in 0 100 (fst (docxToPdf e file options))"
  using monotone_in_docx [OF htmlToPdf_progress]
  by (simp add: docxToPdf_def Let_def split_beta monotone_in_def [of 0 100 "[10]"]
      monotone_in_def [of 0 100 "[10, 20]"] monotone_in_def [of 0 100 "[10, 20, 30]"]
      split: sum.split option.split)

lemma docxsToSinglePdf_progress: "monotone_in 0 100 (fst (docxsToSinglePdf e files options))"
  using monotone_in_docxs [OF docxsLoop_trace htmlToPdf_progress]
    monotone_in_0 [OF docxsLoop_trace]
  by (simp add: docxsToSinglePdf_def Let_def split_beta monotone_in_Nil
      split: sum.split)

lemma dispatch_progress: "monotone_in 0 100 (fst (dispatch e options fs))"
  by (simp add: dispatch_def Let_def imagesToPdf_progress textToPdf_progress
      textsToSinglePdf_progress htmlToPdf_progress htmlsToSinglePdf_progress
      docxToPdf_progress docxsToSinglePdf_progress monotone_in_Nil split: FileType.split)

lemma monotone_in_convert:
  assumes "monotone_in 0 100 trace"
  shows "monotone_in 0 100 (0 # trace)" and "monotone_in 0 100 (0 # trace @ [100])"
  using assms monotone_in_done [OF assms] by (auto intro: monotone_in_Cons)

lemma convert_progress: "monotone_in 0 100 (fst (convert e options state))"
  using monotone_in_convert [OF dispatch_progress, of e options "s_files state"]
  by (auto simp: convert_def split_beta monotone_in_Nil monotone_in_def [of 0 100 "[0]"]
      monotone_in_def [of 0 100 "[0, 100]"] split: sum.split error.split)

text \<open>
  C7. With options as the program receives them, the progress values reported by each
  of the seven converters, by the dispatch of \<open>convert\<close>, and the values taken by
  \<open>overallProgress\<close> during \<open>convert\<close>, never decrease and lie between 0 and 100, whether
  the run succeeds or throws. In \<open>docxToPdf\<close>, once the archive has been read and its
  main entry decoded, the values reported are 10, 20, 30, 40, 50, 60 followed by
  \<open>60 + p * 0.4\<close> for each value \<open>p\<close> reported by the chained \<open>htmlToPdf\<close>.
\<close>

theorem progress_monotone:
  assumes "options_ok options"
  shows "monotone_in 0 100 (fst (imagesToPdf e files options)) \<and>
     monotone_in 0 100 (fst (textToPdf e file options)) \<and>
     monotone_in 0 100 (fst (textsToSinglePdf e files options)) \<and>
     monotone_in 0 100 (fst (htmlToPdf e file options)) \<and>
     monotone_in 0 100 (fst (htmlsToSinglePdf e files options)) \<and>
     monotone_in 0 100 (fst (docxToPdf e file options)) \<and>
     monotone_in 0 100 (fst (docxsToSinglePdf e files options)) \<and>
     monotone_in 0 100 (fst (dispatch e options fs)) \<and>
     monotone_in 0 100 (fst (convert e options state)) \<and>
     (readAsArrayBuffer e file = Inr arrayBuffer \<and> loadAsync e arrayBuffer = Inr z \<and>
      zip_file z ''word/document.xml'' = Some documentXml \<and>
      async_string e documentXml = Inr xmlContent
        \<longrightarrow> fst (docxToPdf e file options) =
              [10, 20, 30, 40, 50, 60] @
              map (\<lambda>p. 60 + p * (4 / 10))
                (fst (htmlToPdf e
                   (html_file (contentToHtml (extractTextFromXml xmlContent) (extractImages e z))
                      (replace_first ''.docx'' ''.html'' (file_name file)))
                   options)))"
proof -
  have chained: "readAsArrayBuffer e file = Inr arrayBuffer \<and> loadAsync e arrayBuffer = Inr z \<and>
      zip_file z ''word/document.xml'' = Some documentXml \<and>
      async_string e documentXml = Inr xmlContent
        \<longrightarrow> fst (docxToPdf e file options) =
              [10, 20, 30, 40, 50, 60] @
              map (\<lambda>p. 60 + p * (4 / 10))
                (fst (htmlToPdf e
                   (html_file (contentToHtml (extractTextFromXml xmlContent) (extractImages e z))
                      (replace_first ''.docx'' ''.html'' (file_name file)))
                   options))"
    by (simp add: docxToPdf_def Let_def split_beta)
  show ?thesis
    using chained imagesToPdf_progress [of e files options] textToPdf_progress [of e "file" options]
      textsToSinglePdf_progress [of e files options] htmlToPdf_progress [of e "file" options]
      htmlsToSinglePdf_progress [of e files options] docxToPdf_progress [of e "file" options]
      docxsToSinglePdf_progress [of e files options] dispatch_progress [of e options fs]
      convert_progress [of e options state]
    by blast
qed

text \<open>
  In the example environment an HTML fragment renders to a canvas 3000 pixels high, which
  makes two pages; a DOCX file then reports the thirteen values below.
\<close>

lemma htmlToPdf_example:
  "fst (htmlToPdf example_env (html_file htm nm) example_options) = [10, 20, 40, 70, 70, 85, 100]"
  by (simp add: htmlToPdf_def example_env_def example_options_def readAsText_def html_file_def
      Let_def PX_PER_MM_def page_strip_def numeral_2_eq_2 split_beta)

theorem progress_monotone_witness:
  "options_ok example_options \<and>
   fst (docxToPdf example_env
          \<lparr>file_name = ''report.docx'', file_type = [], file_size = 0, file_data = []\<rparr>
          example_options)
     = [10, 20, 30, 40, 50, 60, 64, 68, 76, 88, 88, 94, 100] \<and>
   monotone_in 0 100 [10, 20, 30, 40, 50, 60, 64, 68, 76, 88, 88, 94, 100]"
proof -
  have ok: "options_ok example_options"
    by (simp add: options_ok_def example_options_def)
  have pre: "readAsArrayBuffer example_env
      \<lparr>file_name = ''report.docx'', file_type = [], file_size = 0, file_data = []\<rparr> = Inr [] \<and>
    loadAsync example_env [] = Inr [(''word/document.xml'', \<lparr>entry_dir = False, entry_data = []\<rparr>)] \<and>
    zip_file [(''word/document.xml'', \<lparr>entry_dir = False, entry_data = []\<rparr>)] ''word/document.xml''
      = Some \<lparr>entry_dir = False, entry_data = []\<rparr> \<and>
    async_string example_env \<lparr>entry_dir = False, entry_data = []\<rparr> = Inr []"
    by (simp add: readAsArrayBuffer_def example_env_def zip_file_def)
  have all: "monotone_in 0 100 (fst (docxToPdf example_env
          \<lparr>file_name = ''report.docx'', file_type = [], file_size = 0, file_data = []\<rparr>
          example_options)) \<and>
      fst (docxToPdf example_env
          \<lparr>file_name = ''report.docx'', file_type = [], file_size = 0, file_data = []\<rparr>
          example_options) =
        [10, 20, 30, 40, 50, 60] @ map (\<lambda>p. 60 + p * (4 / 10))
          (fst (htmlToPdf example_env
             (html_file (contentToHtml (extractTextFromXml []) (extractImages example_env
                  [(''word/document.xml'', \<lparr>entry_dir = False, entry_data = []\<rparr>)]))
                (replace_first ''.docx'' ''.html''
                  (file_name \<lparr>file_name = ''report.docx'', file_type = [], file_size = 0,
                               file_data = []\<rparr>)))
             example_options))"
    using progress_monotone [OF ok, of example_env
        "[]" "\<lparr>file_name = ''report.docx'', file_type = [], file_size = 0, file_data = []\<rparr>"
        "[]" "\<lparr>s_files = [], isConverting = False, overallProgress = 0, s_result = None, s_error = None\<rparr>"
        "[]" "[(''word/document.xml'', \<lparr>entry_dir = False, entry_data = []\<rparr>)]"
        "\<lparr>entry_dir = False, entry_data = []\<rparr>" "[]"] pre
    by blast
  then have eq: "fst (docxToPdf example_env
          \<lparr>file_name = ''report.docx'', file_type = [], file_size = 0, file_data = []\<rparr>
          example_options) = [10, 20, 30, 40, 50, 60, 64, 68, 76, 88, 88, 94, 100]"
    by (simp add: htmlToPdf_example)
  have "monotone_in 0 100 [10, 20, 30, 40, 50, 60, 64, 68, 76, 88, 88, 94, 100]"
    using all unfolding eq by blast
  then show ?thesis
    using ok eq by blast
qed

section \<open>A DOCX archive without its main entry\<close>

lemma docxsLoop_outcome_indices:
  "snd (docxsLoop e n i files parts) = snd (docxsLoop e n' i' files parts)"
proof (induction files arbitrary: i i' parts)
  case Nil
  then show ?case by simp
next
  case (Cons f rest)
  show ?case
    using Cons.IH [of "Suc i" _ "Suc i'"]
    by (simp add: Let_def split_beta split: sum.split option.split)
qed

lemma docxsLoop_skip:
  assumes "readAsArrayBuffer e f = Inr arrayBuffer" and "loadAsync e arrayBuffer = Inr z"
    and "zip_file z ''word/document.xml'' = None"
  shows "snd (docxsLoop e n i (xs @ f # ys) parts) = snd (docxsLoop e n' i' (xs @ ys) parts)"
proof (induction xs arbitrary: i i' parts)
  case Nil
  show ?case
    using assms docxsLoop_outcome_indices [of e n "Suc i" ys parts n' i']
    by (simp add: Let_def split_beta)
next
  case (Cons x xs)
  show ?case
    using Cons.IH [of "Suc i" _ "Suc i'"]
    by (simp add: Let_def split_beta split: sum.split option.split)
qed

lemma docxsLoop_collects:
  assumes "\<forall>g \<in> set files. docx_content e g \<noteq> None"
  shows "snd (docxsLoop e n i files acc) = Inr (acc @ collected_parts e files)"
  using assms
proof (induction files arbitrary: i acc)
  case Nil
  then show ?case by (simp add: collected_parts_def)
next
  case (Cons g rest)
  from Cons.prems obtain z xmlContent where g: "docx_content e g = Some (z, xmlContent)"
    by auto
  then obtain arrayBuffer documentXml where
    "readAsArrayBuffer e g = Inr arrayBuffer" "loadAsync e arrayBuffer = Inr z"
    "zip_file z ''word/document.xml'' = Some documentXml"
    "async_string e documentXml = Inr xmlContent"
    by (auto simp: docx_content_def split: sum.splits option.splits)
  moreover have "snd (docxsLoop e n (Suc i) rest (acc @ docx_parts e g z xmlContent))
      = Inr ((acc @ docx_parts e g z xmlContent) @ collected_parts e rest)"
    using Cons.prems by (intro Cons.IH) simp
  ultimately show ?case
    using g by (simp add: Let_def split_beta collected_parts_def)
qed

lemma docxsLoop_collects_without:
  assumes "readAsArrayBuffer e f = Inr arrayBuffer" and "loadAsync e arrayBuffer = Inr z"
    and "zip_file z ''word/document.xml'' = None"
    and "\<forall>g \<in> set (xs @ ys). docx_content e g \<noteq> None"
  shows "snd (docxsLoop e n i (xs @ f # ys) acc) = Inr (acc @ collected_parts e (xs @ ys))"
proof -
  have "snd (docxsLoop e n i (xs @ f # ys) acc) = snd (docxsLoop e n i (xs @ ys) acc)"
    using assms(1-3) by (rule docxsLoop_skip)
  then show ?thesis
    using docxsLoop_collects [OF assms(4)] by simp
qed

text \<open>
  C6. Let the file \<open>f\<close> be read and parsed as an archive that has no entry
  \<open>word/document.xml\<close>. Converted alone, \<open>docxToPdf\<close> throws
  \<open>Invalid DOCX file: missing document.xml\<close> after the progress values 10, 20, 30, and
  returns no result. In a batch, \<open>docxsToSinglePdf\<close> does not throw for it, and goes on
  with the other files: when each of them has its main entry, the loop collects the
  heading, the content and the page break of every one of them, in their order, and
  nothing for \<open>f\<close>, and the outcome of the batch is that of rendering this combined HTML
  under the name \<open>converted-documents.pdf\<close>. Whatever the other files are, the outcome of
  the batch (the document, its name and page count, or the error of another file) is the
  outcome of the same batch without \<open>f\<close>; and when \<open>f\<close> is the whole batch, it is that of
  rendering the empty combined HTML.
\<close>

theorem docx_missing_document:
  assumes "readAsArrayBuffer e f = Inr arrayBuffer" and "loadAsync e arrayBuffer = Inr z"
    and "zip_file z ''word/document.xml'' = None"
  shows "docxToPdf e f options =
           ([10, 20, 30], Inl (Error ''Invalid DOCX file: missing document.xml'')) \<and>
         ((\<forall>g \<in> set (xs @ ys). docx_content e g \<noteq> None) \<longrightarrow>
            snd (docxsLoop e (length (xs @ f # ys)) 0 (xs @ f # ys) [])
              = Inr (collected_parts e (xs @ ys)) \<and>
            snd (docxsToSinglePdf e (xs @ f # ys) options) =
              (case snd (htmlToPdf e
                     (html_file (join_js [CHR 0x0A] (collected_parts e (xs @ ys))) ''combined.html'')
                     options) of
                 Inl err \<Rightarrow> Inl err
               | Inr result \<Rightarrow> Inr (result\<lparr>filename := ''converted-documents.pdf''\<rparr>))) \<and>
         (xs @ ys \<noteq> [] \<longrightarrow>
            snd (docxsToSinglePdf e (xs @ f # ys) options) = snd (docxsToSinglePdf e (xs @ ys) options)) \<and>
         snd (docxsToSinglePdf e [f] options) =
           (case snd (htmlToPdf e (html_file [] ''combined.html'') options) of
              Inl err \<Rightarrow> Inl err
            | Inr result \<Rightarrow> Inr (result\<lparr>filename := ''converted-documents.pdf''\<rparr>))"
proof (intro conjI impI)
  show "docxToPdf e f options =
      ([10, 20, 30], Inl (Error ''Invalid DOCX file: missing document.xml''))"
    using assms by (simp add: docxToPdf_def)
next
  assume others: "\<forall>g \<in> set (xs @ ys). docx_content e g \<noteq> None"
  show loop: "snd (docxsLoop e (length (xs @ f # ys)) 0 (xs @ f # ys) [])
      = Inr (collected_parts e (xs @ ys))"
    using docxsLoop_collects_without [OF assms others, of "length (xs @ f # ys)" 0 "[]"] by simp
  show "snd (docxsToSinglePdf e (xs @ f # ys) options) =
      (case snd (htmlToPdf e
             (html_file (join_js [CHR 0x0A] (collected_parts e (xs @ ys))) ''combined.html'')
             options) of
         Inl err \<Rightarrow> Inl err
       | Inr result \<Rightarrow> Inr (result\<lparr>filename := ''converted-documents.pdf''\<rparr>))"
    using loop by (simp add: docxsToSinglePdf_def Let_def split_beta split: sum.split)
next
  assume ne: "xs @ ys \<noteq> []"
  have "snd (docxsLoop e (length (xs @ f # ys)) 0 (xs @ f # ys) [])
      = snd (docxsLoop e (length (xs @ ys)) 0 (xs @ ys) [])"
    using assms by (rule docxsLoop_skip)
  then show "snd (docxsToSinglePdf e (xs @ f # ys) options) = snd (docxsToSinglePdf e (xs @ ys) options)"
    using ne by (auto simp: docxsToSinglePdf_def Let_def split_beta split: sum.split)
next
  show "snd (docxsToSinglePdf e [f] options) =
      (case snd (htmlToPdf e (html_file [] ''combined.html'') options) of
         Inl err \<Rightarrow> Inl err
       | Inr result \<Rightarrow> Inr (result\<lparr>filename := ''converted-documents.pdf''\<rparr>))"
    using assms by (simp add: docxsToSinglePdf_def Let_def split_beta)
qed

text \<open>
  A batch of an archive without entries followed by a document of one paragraph, in the
  browser that keeps the source of its pictures readable: the result has two pages, and
  what is drawn on them is the heading, the paragraph and the page break of the second
  file.
\<close>

lemma good_content:
  "docx_content tracing_env
     \<lparr>file_name = ''good.docx'', file_type = [], file_size = 16, file_data = ''<p><t>Hi</t></p>''\<rparr>
   = Some ([(''word/document.xml'', \<lparr>entry_dir = False, entry_data = ''<p><t>Hi</t></p>''\<rparr>)],
           ''<p><t>Hi</t></p>'')"
  by (simp add: docx_content_def tracing_env_def example_env_def readAsArrayBuffer_def zip_file_def)

lemma good_parts:
  "collected_parts tracing_env
     [\<lparr>file_name = ''good.docx'', file_type = [], file_size = 16, file_data = ''<p><t>Hi</t></p>''\<rparr>]
   = [''<h1 style='' @ [CHR 0x22] @ ''border-bottom: 2px solid #ddd; padding-bottom: 8px;''
            @ [CHR 0x22] @ ''>good.docx</h1>'',
      ''<p>Hi</p>'',
      ''<div style='' @ [CHR 0x22] @ ''page-break-after: always;'' @ [CHR 0x22] @ ''></div>'']"
  by (simp add: collected_parts_def good_content docx_parts_def extractTextFromXml_def
      startsWith_def trim_nonempty_def is_space_def extractImages_def is_media_image_def
      contentToHtml_def replace_char_all_def)

lemma tracing_render:
  "map_sum id (\<lambda>r. (pageCount r, map (\<lambda>pg. map draw_data (draws pg)) (pages (blob r))))
     (snd (htmlToPdf tracing_env (html_file htm ''combined.html'') example_options))
   = Inr (2, [[htm], [htm]])"
  by (simp add: htmlToPdf_def tracing_env_def example_env_def example_options_def readAsText_def
      html_file_def Let_def PX_PER_MM_def page_strip_def numeral_2_eq_2 split_beta
      is_markdown_name_def endsWith_def new_jsPDF_def addImage_def draw_on_current_def
      addPage0_def addPage_def)

theorem docx_missing_document_witness:
  "docxToPdf tracing_env
     \<lparr>file_name = ''broken.docx'', file_type = [], file_size = 11, file_data = ''no-document''\<rparr>
     example_options
     = ([10, 20, 30], Inl (Error ''Invalid DOCX file: missing document.xml'')) \<and>
   map_sum id (\<lambda>r. (filename r, pageCount r, map (\<lambda>pg. map draw_data (draws pg)) (pages (blob r))))
     (snd (docxsToSinglePdf tracing_env
        [\<lparr>file_name = ''broken.docx'', file_type = [], file_size = 11, file_data = ''no-document''\<rparr>,
         \<lparr>file_name = ''good.docx'', file_type = [], file_size = 16, file_data = ''<p><t>Hi</t></p>''\<rparr>]
        example_options))
     = Inr (''converted-documents.pdf'', 2,
            [[''<h1 style='' @ [CHR 0x22] @ ''border-bottom: 2px solid #ddd; padding-bottom: 8px;''
                @ [CHR 0x22] @ ''>good.docx</h1>\<newline><p>Hi</p>\<newline><div style='' @ [CHR 0x22]
                @ ''page-break-after: always;'' @ [CHR 0x22] @ ''></div>''],
             [''<h1 style='' @ [CHR 0x22] @ ''border-bottom: 2px solid #ddd; padding-bottom: 8px;''
                @ [CHR 0x22] @ ''>good.docx</h1>\<newline><p>Hi</p>\<newline><div style='' @ [CHR 0x22]
                @ ''page-break-after: always;'' @ [CHR 0x22] @ ''></div>'']])"
proof -
  let ?broken = "\<lparr>file_name = ''broken.docx'', file_type = [], file_size = 11, file_data = ''no-document''\<rparr>"
  let ?good = "\<lparr>file_name = ''good.docx'', file_type = [], file_size = 16, file_data = ''<p><t>Hi</t></p>''\<rparr>"
  have pre: "readAsArrayBuffer tracing_env ?broken = Inr ''no-document''"
    "loadAsync tracing_env ''no-document'' = Inr []"
    "zip_file [] ''word/document.xml'' = None"
    by (simp_all add: readAsArrayBuffer_def tracing_env_def example_env_def zip_file_def)
  have others: "\<forall>g \<in> set ([] @ [?good]). docx_content tracing_env g \<noteq> None"
    by (simp add: good_content)
  note fact = docx_missing_document [OF pre, of example_options "[]" "[?good]"]
  from fact have single: "docxToPdf tracing_env ?broken example_options
      = ([10, 20, 30], Inl (Error ''Invalid DOCX file: missing document.xml''))"
    by blast
  from fact others have "snd (docxsToSinglePdf tracing_env ([] @ ?broken # [?good]) example_options) =
      (case snd (htmlToPdf tracing_env
             (html_file (join_js [CHR 0x0A] (collected_parts tracing_env ([] @ [?good]))) ''combined.html'')
             example_options) of
         Inl err \<Rightarrow> Inl err
       | Inr result \<Rightarrow> Inr (result\<lparr>filename := ''converted-documents.pdf''\<rparr>))"
    by blast
  then have batch: "map_sum id (\<lambda>r. (filename r, pageCount r, map (\<lambda>pg. map draw_data (draws pg)) (pages (blob r))))
     (snd (docxsToSinglePdf tracing_env [?broken, ?good] example_options))
     = Inr (''converted-documents.pdf'', 2,
            [[join_js [CHR 0x0A] (collected_parts tracing_env [?good])],
             [join_js [CHR 0x0A] (collected_parts tracing_env [?good])]])"
    using tracing_render [of "join_js [CHR 0x0A] (collected_parts tracing_env [?good])"]
    by (auto split: sum.splits)
  show ?thesis
    using single batch by (simp add: good_parts)
qed

section \<open>The name of the result\<close>

lemma textToPdf_filename:
  "textToPdf e f options = (tr, Inr r) \<Longrightarrow> filename r = remove_extension (file_name f) @ ''.pdf''"
  by (auto simp: textToPdf_def Let_def split_beta split: sum.splits)

lemma htmlToPdf_filename:
  "htmlToPdf e f options = (tr, Inr r) \<Longrightarrow> filename r = remove_extension (file_name f) @ ''.pdf''"
  by (auto simp: htmlToPdf_def Let_def split_beta split: sum.splits)

lemma docxToPdf_filename:
  "docxToPdf e f options = (tr, Inr r) \<Longrightarrow> filename r = replace_first ''.docx'' ''.pdf'' (file_name f)"
  by (auto simp: docxToPdf_def Let_def split_beta split: sum.splits option.splits)

lemma imagesToPdf_filename:
  "imagesToPdf e files options = (tr, Inr r) \<Longrightarrow>
     filename r = ''converted-images.pdf'' \<and> pageCount r = int (length files)"
  by (auto simp: imagesToPdf_def Let_def split_beta split: sum.splits option.splits if_splits)

lemma textsToSinglePdf_filename:
  "textsToSinglePdf e files options = (tr, Inr r) \<Longrightarrow> filename r = ''converted-texts.pdf''"
  by (auto simp: textsToSinglePdf_def Let_def split_beta split: sum.splits if_splits)

lemma htmlsToSinglePdf_filename:
  "htmlsToSinglePdf e files options = (tr, Inr r) \<Longrightarrow> filename r = ''converted-documents.pdf''"
  by (auto simp: htmlsToSinglePdf_def Let_def split_beta split: sum.splits option.splits if_splits)

lemma docxsToSinglePdf_filename:
  "docxsToSinglePdf e files options = (tr, Inr r) \<Longrightarrow> filename r = ''converted-documents.pdf''"
  by (auto simp: docxsToSinglePdf_def Let_def split_beta split: sum.splits if_splits)

lemma remove_extension_suffix:
  assumes "ext \<noteq> []" and "CHR ''.'' \<notin> set ext"
  shows "remove_extension (base @ ''.'' @ ext) = base"
proof -
  have "takeWhile (\<lambda>c. c \<noteq> CHR ''.'') (rev (base @ ''.'' @ ext)) = rev ext"
    using assms(2) by (auto simp: takeWhile_append2 takeWhile_tail)
  then show ?thesis
    using assms(1) by (simp add: remove_extension_def Let_def)
qed

lemma startsWith_append_pattern:
  assumes "base \<noteq> []" and "startsWith (base @ x # q) (x # q)" and "x \<notin> set q"
  shows "startsWith base (x # q)"
proof (cases "length base < length (x # q)")
  case True
  from assms(2) have tk: "take (length (x # q)) (base @ x # q) = x # q"
    by (simp add: startsWith_def)
  have "(x # q) ! length base = take (length (x # q)) (base @ x # q) ! length base"
    by (simp only: tk)
  also have "\<dots> = (base @ x # q) ! length base"
    using True by (rule nth_take)
  also have "\<dots> = x"
    by (rule nth_append_length)
  finally have x: "x = (x # q) ! length base"
    by simp
  from assms(1) obtain k where k: "length base = Suc k"
    by (cases base) auto
  with x True have "x = q ! k" and "k < length q"
    by auto
  with assms(3) show ?thesis
    by (metis nth_mem)
next
  case False
  with assms(2) show ?thesis
    by (simp add: startsWith_def)
qed

lemma startsWith_docx_append:
  assumes "base \<noteq> []" and "startsWith (base @ ''.docx'') ''.docx''"
  shows "startsWith base ''.docx''"
  using startsWith_append_pattern [OF assms(1), of "CHR ''.''" "''docx''"] assms(2) by simp

lemma replace_first_docx:
  assumes "\<not> includes_js base ''.docx''"
  shows "replace_first ''.docx'' rep (base @ ''.docx'') = base @ rep"
  using assms
proof (induction base)
  case Nil
  then show ?case by (simp add: startsWith_def)
next
  case (Cons c cs)
  then have no: "\<not> startsWith (c # cs) ''.docx''" and rest: "\<not> includes_js cs ''.docx''"
    by simp_all
  have "\<not> startsWith ((c # cs) @ ''.docx'') ''.docx''"
    using no startsWith_docx_append [of "c # cs"] by blast
  then show ?case
    using Cons.IH [OF rest] by simp
qed

lemma dispatch_single:
  "dispatch e options [cf] =
     (case cf_type cf of
        Image \<Rightarrow> imagesToPdf e [cf_file cf] options
      | Text \<Rightarrow> textToPdf e (cf_file cf) options
      | Html \<Rightarrow> htmlToPdf e (cf_file cf) options
      | Markdown \<Rightarrow> htmlToPdf e (cf_file cf) options
      | Docx \<Rightarrow> docxToPdf e (cf_file cf) options
      | Unknown \<Rightarrow> ([], Inl (Error ''Unsupported file type''))
      | Inherited k \<Rightarrow> ([], Inl (Error ''Unsupported file type'')))"
  by (simp add: dispatch_def Let_def split: FileType.split)


text \<open>
  C9, as the code has it. When the queue holds one file and the conversion returns a
  result: for a text, HTML or Markdown file the name of the result is the name of the
  file with its extension removed (the last dot and what follows it, when something
  follows it) and \<open>.pdf\<close> appended; for a DOCX file whose name ends in \<open>.docx\<close> and has
  no other occurrence of \<open>.docx\<close>, it is the name with that extension replaced by
  \<open>.pdf\<close>; for an image it is the fixed name
  \<open>converted-images.pdf\<close>. The batch converters give the fixed names
  \<open>converted-images.pdf\<close>, \<open>converted-texts.pdf\<close> and \<open>converted-documents.pdf\<close>.
\<close>

theorem single_file_filename:
  "(dispatch e options [cf] = (trace, Inr r) \<longrightarrow>
      (cf_type cf = Text \<or> cf_type cf = Html \<or> cf_type cf = Markdown
         \<longrightarrow> filename r = remove_extension (file_name (cf_file cf)) @ ''.pdf'') \<and>
      (cf_type cf = Docx \<and> file_name (cf_file cf) = base @ ''.docx'' \<and> \<not> includes_js base ''.docx''
         \<longrightarrow> filename r = base @ ''.pdf'') \<and>
      (cf_type cf = Image \<longrightarrow> filename r = ''converted-images.pdf'')) \<and>
   (ext \<noteq> [] \<and> CHR ''.'' \<notin> set ext \<longrightarrow> remove_extension (stem @ ''.'' @ ext) = stem) \<and>
   (imagesToPdf e files options = (trace1, Inr r1) \<longrightarrow> filename r1 = ''converted-images.pdf'') \<and>
   (textsToSinglePdf e files options = (trace2, Inr r2) \<longrightarrow> filename r2 = ''converted-texts.pdf'') \<and>
   (htmlsToSinglePdf e files options = (trace3, Inr r3) \<longrightarrow> filename r3 = ''converted-documents.pdf'') \<and>
   (docxsToSinglePdf e files options = (trace4, Inr r4) \<longrightarrow> filename r4 = ''converted-documents.pdf'')"
proof -
  have single: "dispatch e options [cf] = (trace, Inr r) \<longrightarrow>
      (cf_type cf = Text \<or> cf_type cf = Html \<or> cf_type cf = Markdown
         \<longrightarrow> filename r = remove_extension (file_name (cf_file cf)) @ ''.pdf'') \<and>
      (cf_type cf = Docx \<and> file_name (cf_file cf) = base @ ''.docx'' \<and> \<not> includes_js base ''.docx''
         \<longrightarrow> filename r = base @ ''.pdf'') \<and>
      (cf_type cf = Image \<longrightarrow> filename r = ''converted-images.pdf'')"
    using textToPdf_filename [of e "cf_file cf" options trace r]
      htmlToPdf_filename [of e "cf_file cf" options trace r]
      docxToPdf_filename [of e "cf_file cf" options trace r]
      imagesToPdf_filename [of e "[cf_file cf]" options trace r]
      replace_first_docx [of base "''.pdf''"]
    by (auto simp: dispatch_single)
  show ?thesis
    using single remove_extension_suffix [of ext stem]
      imagesToPdf_filename [of e files options trace1 r1]
      textsToSinglePdf_filename [of e files options trace2 r2]
      htmlsToSinglePdf_filename [of e files options trace3 r3]
      docxsToSinglePdf_filename [of e files options trace4 r4]
    by blast
qed

text \<open>
  A text file \<open>notes.txt\<close> alone in the queue gives \<open>notes.pdf\<close>, and a DOCX file
  \<open>report.v2.docx\<close> alone in the queue gives \<open>report.v2.pdf\<close>.
\<close>

theorem single_file_filename_witness:
  "map_sum id filename
     (snd (dispatch example_env example_options
        [\<lparr>cf_id = ''a1b2c3'',
          cf_file = \<lparr>file_name = ''notes.txt'', file_type = ''text/plain'', file_size = 5,
                      file_data = ''hello''\<rparr>,
          cf_type = Text, cf_preview = None, cf_status = status_pending, cf_progress = 0\<rparr>]))
     = Inr ''notes.pdf'' \<and>
   map_sum id filename
     (snd (dispatch example_env example_options
        [\<lparr>cf_id = ''d4e5f6'',
          cf_file = \<lparr>file_name = ''report.v2.docx'', file_type = [], file_size = 0, file_data = []\<rparr>,
          cf_type = Docx, cf_preview = None, cf_status = status_pending, cf_progress = 0\<rparr>]))
     = Inr ''report.v2.pdf''"
proof -
  let ?cf = "\<lparr>cf_id = ''a1b2c3'',
          cf_file = \<lparr>file_name = ''notes.txt'', file_type = ''text/plain'', file_size = 5,
                      file_data = ''hello''\<rparr>,
          cf_type = Text, cf_preview = None, cf_status = status_pending, cf_progress = 0\<rparr>"
  let ?df = "\<lparr>cf_id = ''d4e5f6'',
          cf_file = \<lparr>file_name = ''report.v2.docx'', file_type = [], file_size = 0, file_data = []\<rparr>,
          cf_type = Docx, cf_preview = None, cf_status = status_pending, cf_progress = 0\<rparr>"
  obtain trace r where run: "dispatch example_env example_options [?cf] = (trace, Inr r)"
    by (simp add: dispatch_single textToPdf_def readAsText_def example_env_def Let_def split_beta)
  have "filename r = remove_extension (file_name (cf_file ?cf)) @ ''.pdf''"
    using single_file_filename [of example_env example_options ?cf trace r] run
    by simp
  then have name1: "filename r = ''notes.pdf''"
    by (simp add: remove_extension_def)
  obtain trace' r' where run': "dispatch example_env example_options [?df] = (trace', Inr r')"
    by (simp add: dispatch_single docxToPdf_def htmlToPdf_def readAsArrayBuffer_def readAsText_def
        example_env_def example_options_def zip_file_def html_file_def Let_def split_beta
        PX_PER_MM_def page_strip_def numeral_2_eq_2)
  have name2: "filename r' = ''report.v2'' @ ''.pdf''"
    using single_file_filename [of example_env example_options ?df trace' r' "''report.v2''"] run'
    by (simp add: startsWith_def)
  from run name1 run' name2 show ?thesis
    by simp
qed

lemma imagesToPdf_example:
  "snd (imagesToPdf example_env [f] example_options) =
     Inr \<lparr>blob = \<lparr>pages = [\<lparr>page_format = Named ''a4'', page_orientation = portrait,
                               draws = [addImage_op ''data:image/jpeg;base64,'' ''JPEG''
                                          10 (10 + (277 - 190 / (800 / 600)) / 2) 190 (190 / (800 / 600))]\<rparr>],
                    font = (''helvetica'', ''normal''), fontSize = 16\<rparr>,
          filename = ''converted-images.pdf'', pageCount = 1\<rparr>"
  by (simp add: imagesToPdf_def example_env_def example_options_def readAsDataURL_def loadImage_def
      imageToCanvas_def constrainDimensions_def MAX_DIMENSION_def page_dims_def image_format_def
      calculatePlacement_def new_jsPDF_def addImage_def draw_on_current_def Let_def)

text \<open>
  C9 as it is written fails: a single image \<open>photo.png\<close> is converted by
  \<open>imagesToPdf\<close>, and the result is named \<open>converted-images.pdf\<close>, not \<open>photo.pdf\<close>; and
  for a single DOCX file \<open>a.docx.docx\<close> the first \<open>.docx\<close> of the name is replaced: the
  result is named \<open>a.pdf.docx\<close>, not \<open>a.docx.pdf\<close>.
\<close>

theorem single_image_filename_counterexample:
  "map_sum id filename
     (snd (dispatch example_env example_options
        [\<lparr>cf_id = ''k3j2h1'',
          cf_file = \<lparr>file_name = ''photo.png'', file_type = ''image/png'', file_size = 2048,
                      file_data = ''PNG''\<rparr>,
          cf_type = Image, cf_preview = None, cf_status = status_pending, cf_progress = 0\<rparr>]))
     = Inr ''converted-images.pdf'' \<and>
   remove_extension ''photo.png'' @ ''.pdf'' = ''photo.pdf'' \<and>
   map_sum id filename
     (snd (dispatch example_env example_options
        [\<lparr>cf_id = ''m7n8p9'',
          cf_file = \<lparr>file_name = ''a.docx.docx'', file_type = [], file_size = 0, file_data = []\<rparr>,
          cf_type = Docx, cf_preview = None, cf_status = status_pending, cf_progress = 0\<rparr>]))
     = Inr ''a.pdf.docx'' \<and>
   remove_extension ''a.docx.docx'' @ ''.pdf'' = ''a.docx.pdf''"
proof -
  have image: "map_sum id filename
     (snd (dispatch example_env example_options
        [\<lparr>cf_id = ''k3j2h1'',
          cf_file = \<lparr>file_name = ''photo.png'', file_type = ''image/png'', file_size = 2048,
                      file_data = ''PNG''\<rparr>,
          cf_type = Image, cf_preview = None, cf_status = status_pending, cf_progress = 0\<rparr>]))
     = Inr ''converted-images.pdf''"
    by (simp add: dispatch_single imagesToPdf_example)
  have docx: "map_sum id filename
     (snd (dispatch example_env example_options
        [\<lparr>cf_id = ''m7n8p9'',
          cf_file = \<lparr>file_name = ''a.docx.docx'', file_type = [], file_size = 0, file_data = []\<rparr>,
          cf_type = Docx, cf_preview = None, cf_status = status_pending, cf_progress = 0\<rparr>]))
     = Inr ''a.pdf.docx''"
    by (simp add: dispatch_single docxToPdf_def htmlToPdf_def readAsArrayBuffer_def readAsText_def
        example_env_def example_options_def zip_file_def html_file_def Let_def split_beta
        PX_PER_MM_def page_strip_def numeral_2_eq_2 startsWith_def)
  show ?thesis
    unfolding image docx by (simp add: remove_extension_def)
qed

section \<open>Mixed batches\<close>

lemma pages_addImage:
  "pages pdf \<noteq> [] \<Longrightarrow> length (pages (addImage d fmt a b c h pdf)) = length (pages pdf)"
  by (cases "pages pdf" rule: rev_cases) (simp_all add: addImage_def draw_on_current_def)

lemma imagesLoop_pages_later:
  assumes "0 < i" and "imagesLoop e options n i files (Some d0) = (tr, Inr r)"
  shows "\<exists>d. r = Some d \<and> length (pages d) = length (pages d0) + length files"
  using assms
proof (induction files arbitrary: i d0 tr)
  case Nil
  then show ?case by auto
next
  case (Cons f rest)
  from Cons.prems obtain d1 tr1 where rec: "imagesLoop e options n (Suc i) rest (Some d1) = (tr1, Inr r)"
    and d1: "length (pages d1) = Suc (length (pages d0))"
    by (auto simp: Let_def pages_addImage addPage_def
        split: sum.splits option.splits if_splits prod.splits)
  from Cons.IH [OF _ rec] d1 show ?case
    by auto
qed

lemma imagesLoop_pages:
  assumes "files \<noteq> []" and "imagesLoop e options n 0 files pdf = (tr, Inr r)"
  shows "\<exists>d. r = Some d \<and> length (pages d) = length files"
proof -
  obtain f rest where files: "files = f # rest"
    using assms(1) by (cases files) auto
  from assms(2) obtain d1 tr1 where rec: "imagesLoop e options n (Suc 0) rest (Some d1) = (tr1, Inr r)"
    and d1: "length (pages d1) = 1"
    unfolding files
    by (auto simp: Let_def pages_addImage new_jsPDF_def
        split: sum.splits option.splits if_splits prod.splits)
  from imagesLoop_pages_later [OF _ rec] d1 show ?thesis
    by (auto simp: files)
qed

lemma imagesLoop_succeeds:
  assumes "\<forall>f \<in> set files. loadable e f" and "i = 0 \<or> pdf \<noteq> None"
  shows "\<exists>r. snd (imagesLoop e options n i files pdf) = Inr r"
  using assms
proof (induction files arbitrary: i pdf)
  case Nil
  then show ?case by simp
next
  case (Cons f rest)
  have ld: "loadable e f"
    using Cons.prems(1) by simp
  then obtain w h where dec: "decodeImage e (encodeDataURL e f) = Some (w, h)"
    and ctx: "context2d e (fst (constrainDimensions w h)) (snd (constrainDimensions w h))"
    and rd: "\<not> read_error e f"
    by (auto simp: loadable_def split: option.splits)
  have next_ok: "\<exists>r. snd (imagesLoop e options n (Suc i) rest (Some d)) = Inr r" for d
    using Cons.prems(1) by (intro Cons.IH) simp_all
  show ?case
    using dec ctx rd next_ok Cons.prems(2)
    by (auto simp: Let_def split_beta readAsDataURL_def loadImage_def imageToCanvas_def
        split: sum.splits option.splits)
qed

text \<open>
  C1. For a queue that holds at least two distinct file types, \<open>convert\<close> calls exactly
  the converter the priority rule of the specification names, on exactly the files of
  the first group present in the order image, text, html/markdown, docx. When the queue
  holds images, these alone are converted by \<open>imagesToPdf\<close>: every result has as many
  pages as there are images in the queue, in its page count and in its document, and
  there is a result when every image can be loaded.
\<close>

theorem mixed_batch_priority:
  assumes "2 \<le> length (remdups (map cf_type fs))"
  shows "dispatch e options fs = priority_conversion e options fs \<and>
     (group_of (\<lambda>t. t = Image) fs \<noteq> [] \<longrightarrow>
        dispatch e options fs = imagesToPdf e (group_of (\<lambda>t. t = Image) fs) options \<and>
        (\<forall>trace r. dispatch e options fs = (trace, Inr r) \<longrightarrow>
           pageCount r = int (length (group_of (\<lambda>t. t = Image) fs)) \<and>
           length (pages (blob r)) = length (group_of (\<lambda>t. t = Image) fs)) \<and>
        ((\<forall>f \<in> set (group_of (\<lambda>t. t = Image) fs). loadable e f) \<longrightarrow>
           (\<exists>trace r. dispatch e options fs = (trace, Inr r))))"
proof -
  let ?images = "group_of (\<lambda>t. t = Image) fs"
  have mixed: "length (remdups (map cf_type fs)) \<noteq> 1"
    using assms by simp
  have refine: "dispatch e options fs = priority_conversion e options fs"
    using mixed
    by (simp add: dispatch_def priority_conversion_def priority_order_def group_of_def Let_def
        docxsToSinglePdf_def)
  have images: "dispatch e options fs = imagesToPdf e ?images options" if "?images \<noteq> []"
    using mixed that by (simp add: dispatch_def group_of_def Let_def)
  have count: "pageCount r = int (length ?images) \<and> length (pages (blob r)) = length ?images"
    if ne: "?images \<noteq> []" and run: "imagesToPdf e ?images options = (trace, Inr r)" for trace r
  proof -
    obtain tr out where loop: "imagesLoop e options (length ?images) 0 ?images None = (tr, out)"
      by (cases "imagesLoop e options (length ?images) 0 ?images None") auto
    with run ne obtain d where out: "out = Inr (Some d)" and r: "r = \<lparr>blob = d,
        filename = ''converted-images.pdf'', pageCount = int (length ?images)\<rparr>"
      by (auto simp: imagesToPdf_def split: sum.splits option.splits)
    from imagesLoop_pages [OF ne loop [unfolded out]] show ?thesis
      by (simp add: r)
  qed
  have succeeds: "\<exists>trace r. imagesToPdf e ?images options = (trace, Inr r)"
    if ne: "?images \<noteq> []" and ld: "\<forall>f \<in> set ?images. loadable e f"
  proof -
    obtain tr out where loop: "imagesLoop e options (length ?images) 0 ?images None = (tr, out)"
      by (cases "imagesLoop e options (length ?images) 0 ?images None") auto
    from imagesLoop_succeeds [OF ld, of 0 None options "length ?images"] loop
    obtain r0 where out: "out = Inr r0"
      by auto
    from imagesLoop_pages [OF ne loop [unfolded out]] obtain d where "r0 = Some d"
      by auto
    with loop out ne show ?thesis
      by (simp add: imagesToPdf_def)
  qed
  show ?thesis
    using refine images count succeeds by (metis (no_types, lifting))
qed

text \<open>
  Two images and a text file between them, in the example environment: the result has
  two pages.
\<close>

theorem mixed_batch_priority_witness:
  "2 \<le> length (remdups (map cf_type
     [\<lparr>cf_id = ''i1'',
       cf_file = \<lparr>file_name = ''a.png'', file_type = ''image/png'', file_size = 3, file_data = ''PNG''\<rparr>,
       cf_type = Image, cf_preview = None, cf_status = status_pending, cf_progress = 0\<rparr>,
      \<lparr>cf_id = ''t1'',
       cf_file = \<lparr>file_name = ''c.txt'', file_type = ''text/plain'', file_size = 5, file_data = ''hello''\<rparr>,
       cf_type = Text, cf_preview = None, cf_status = status_pending, cf_progress = 0\<rparr>,
      \<lparr>cf_id = ''i2'',
       cf_file = \<lparr>file_name = ''b.jpg'', file_type = ''image/jpeg'', file_size = 3, file_data = ''JPG''\<rparr>,
       cf_type = Image, cf_preview = None, cf_status = status_pending, cf_progress = 0\<rparr>])) \<and>
   (\<exists>trace r. dispatch example_env example_options
     [\<lparr>cf_id = ''i1'',
       cf_file = \<lparr>file_name = ''a.png'', file_type = ''image/png'', file_size = 3, file_data = ''PNG''\<rparr>,
       cf_type = Image, cf_preview = None, cf_status = status_pending, cf_progress = 0\<rparr>,
      \<lparr>cf_id = ''t1'',
       cf_file = \<lparr>file_name = ''c.txt'', file_type = ''text/plain'', file_size = 5, file_data = ''hello''\<rparr>,
       cf_type = Text, cf_preview = None, cf_status = status_pending, cf_progress = 0\<rparr>,
      \<lparr>cf_id = ''i2'',
       cf_file = \<lparr>file_name = ''b.jpg'', file_type = ''image/jpeg'', file_size = 3, file_data = ''JPG''\<rparr>,
       cf_type = Image, cf_preview = None, cf_status = status_pending, cf_progress = 0\<rparr>]
      = (trace, Inr r) \<and> pageCount r = 2 \<and> length (pages (blob r)) = 2)"
proof -
  let ?fs = "[\<lparr>cf_id = ''i1'',
       cf_file = \<lparr>file_name = ''a.png'', file_type = ''image/png'', file_size = 3, file_data = ''PNG''\<rparr>,
       cf_type = Image, cf_preview = None, cf_status = status_pending, cf_progress = 0\<rparr>,
      \<lparr>cf_id = ''t1'',
       cf_file = \<lparr>file_name = ''c.txt'', file_type = ''text/plain'', file_size = 5, file_data = ''hello''\<rparr>,
       cf_type = Text, cf_preview = None, cf_status = status_pending, cf_progress = 0\<rparr>,
      \<lparr>cf_id = ''i2'',
       cf_file = \<lparr>file_name = ''b.jpg'', file_type = ''image/jpeg'', file_size = 3, file_data = ''JPG''\<rparr>,
       cf_type = Image, cf_preview = None, cf_status = status_pending, cf_progress = 0\<rparr>]"
  have mixed: "2 \<le> length (remdups (map cf_type ?fs))"
    by simp
  have images: "group_of (\<lambda>t. t = Image) ?fs =
      [\<lparr>file_name = ''a.png'', file_type = ''image/png'', file_size = 3, file_data = ''PNG''\<rparr>,
       \<lparr>file_name = ''b.jpg'', file_type = ''image/jpeg'', file_size = 3, file_data = ''JPG''\<rparr>]"
    by (simp add: group_of_def)
  have ld: "\<forall>f \<in> set (group_of (\<lambda>t. t = Image) ?fs). loadable example_env f"
    by (simp add: images loadable_def example_env_def)
  have ne: "group_of (\<lambda>t. t = Image) ?fs \<noteq> []"
    by (simp add: images)
  note rule = mixed_batch_priority [OF mixed, of example_env example_options]
  from rule ne ld obtain trace r where run: "dispatch example_env example_options ?fs = (trace, Inr r)"
    by blast
  with rule ne have "pageCount r = int (length (group_of (\<lambda>t. t = Image) ?fs)) \<and>
      length (pages (blob r)) = length (group_of (\<lambda>t. t = Image) ?fs)"
    by blast
  then have "pageCount r = 2 \<and> length (pages (blob r)) = 2"
    by (simp add: images)
  with run mixed show ?thesis
    by blast
qed

section \<open>Markdown: emphasis and code spans\<close>

lemma plain_Cons: "plain (c # cs) \<longleftrightarrow>
    c \<noteq> CHR ''*'' \<and> c \<noteq> CHR ''`'' \<and> c \<noteq> CHR ''['' \<and> c \<noteq> CHR ''<'' \<and> c \<noteq> CHR 0x0A \<and> c \<noteq> CHR 0x0D \<and> plain cs"
  by (auto simp: plain_def)

lemma plain_Nil: "plain []"
  by (simp add: plain_def)

lemma startsWith_Cons:
  "startsWith (c # cs) (d # ds) \<longleftrightarrow> c = d \<and> startsWith cs ds"
  by (simp add: startsWith_def)

lemma startsWith_Nil: "startsWith cs []" "startsWith [] (d # ds) = False"
  by (simp_all add: startsWith_def)

lemma heading_copy:
  "\<forall>c \<in> set p. \<not> is_LT c \<Longrightarrow> heading m op cl False 0 (p @ rest) = p @ heading m op cl False 0 rest"
  by (induction p) simp_all

lemma delimited_copy:
  "\<forall>c \<in> set p. c \<noteq> d \<Longrightarrow>
     delimited dotall (d # ds) op cl 0 (p @ rest) = p @ delimited dotall (d # ds) op cl 0 rest"
  by (induction p) (simp_all add: startsWith_Cons)

lemma delimited_skip:
  "delimited dotall d op cl (length p + k) (p @ rest) = delimited dotall d op cl k rest"
  by (induction p) simp_all

lemma find_close_copy:
  "\<forall>c \<in> set p. c \<noteq> d \<and> \<not> is_LT c \<Longrightarrow>
     find_close False (d # ds) (p @ rest) =
       (case find_close False (d # ds) rest of None \<Rightarrow> None | Some x \<Rightarrow> Some (p @ x))"
  by (induction p) (simp_all add: startsWith_Cons split: option.split)

lemma inline_code_skip:
  "inline_code (length p + k) (p @ rest) = inline_code k rest"
  by (induction p) simp_all

lemma links_copy:
  "\<forall>c \<in> set p. c \<noteq> CHR ''['' \<Longrightarrow> links 0 (p @ rest) = p @ links 0 rest"
  by (induction p) simp_all

lemma list_items_copy:
  "\<forall>c \<in> set p. \<not> is_LT c \<Longrightarrow> list_items False 0 (p @ rest) = p @ list_items False 0 rest"
  by (induction p) simp_all

lemma paragraphs_copy:
  "\<forall>c \<in> set p. c \<noteq> CHR 0x0A \<Longrightarrow> paragraphs (p @ rest) = p @ paragraphs rest"
proof (induction p)
  case Nil
  then show ?case by simp
next
  case (Cons c p)
  then show ?case
    by (cases "p @ rest") simp_all
qed

lemma replace_char_all_copy:
  "\<forall>c \<in> set p. c \<noteq> a \<Longrightarrow> replace_char_all a rep (p @ rest) = p @ replace_char_all a rep rest"
  by (induction p) (simp_all add: replace_char_all_def)

lemma li_chain_other: "c \<noteq> CHR ''<'' \<Longrightarrow> li_chain (c # cs) = 0"
  by (simp add: li_chain.simps li_item_def startsWith_Cons)

lemma ul_wrap_copy:
  "\<forall>c \<in> set p. c \<noteq> CHR ''<'' \<Longrightarrow> ul_wrap 0 (p @ rest) = p @ ul_wrap 0 rest"
  by (induction p) (simp_all add: li_chain_other)


lemma plain_set:
  assumes "plain s"
  shows "\<forall>c \<in> set s. c \<noteq> CHR ''*''" and "\<forall>c \<in> set s. c \<noteq> CHR ''`''"
    and "\<forall>c \<in> set s. c \<noteq> CHR ''[''" and "\<forall>c \<in> set s. c \<noteq> CHR ''<''"
    and "\<forall>c \<in> set s. c \<noteq> CHR 0x0A" and "\<forall>c \<in> set s. \<not> is_LT c"
    and "\<forall>c \<in> set s. c \<noteq> CHR ''*'' \<and> \<not> is_LT c"
  using assms by (auto simp: plain_def is_LT_def)

lemma emphasis_in_code_stage1:
  assumes "plain (c # cs)"
  shows "heading (CHR ''#'' # m) op cl True 0 (''`*'' @ (c # cs) @ ''*`'') = ''`*'' @ (c # cs) @ ''*`''"
proof -
  have "heading (CHR ''#'' # m) op cl False 0 ((c # cs) @ ''*`'')
      = (c # cs) @ heading (CHR ''#'' # m) op cl False 0 ''*`''"
    using plain_set(6) [OF assms] by (rule heading_copy)
  then show ?thesis
    by (simp add: startsWith_Cons is_LT_def)
qed

lemma emphasis_in_code_stage2:
  assumes "plain (c # cs)"
  shows "delimited False (''**'' @ d') op cl 0 (''`*'' @ (c # cs) @ ''*`'') = ''`*'' @ (c # cs) @ ''*`''"
proof -
  have c: "c \<noteq> CHR ''*''"
    using assms by (simp add: plain_Cons)
  have "delimited False (''**'' @ d') op cl 0 (cs @ ''*`'')
      = cs @ delimited False (''**'' @ d') op cl 0 ''*`''"
    using plain_set(1) [OF assms]
      delimited_copy [where p = cs and d = "CHR ''*''" and ds = "CHR ''*'' # d'"]
    by simp
  then show ?thesis
    using c by (simp add: startsWith_Cons startsWith_Nil)
qed

lemma emphasis_in_code_stage3:
  assumes "plain (c # cs)"
  shows "delimited False ''*'' ''<em>'' ''</em>'' 0 (''`*'' @ (c # cs) @ ''*`'')
      = ''`<em>'' @ (c # cs) @ ''</em>`''"
proof -
  have "find_close False ''*'' ((c # cs) @ ''*`'') =
      (case find_close False ''*'' ''*`'' of None \<Rightarrow> None | Some x \<Rightarrow> Some ((c # cs) @ x))"
    using plain_set(7) [OF assms] by (rule find_close_copy)
  then have close: "find_close False ''*'' (c # cs @ ''*`'') = Some (c # cs)"
    by (simp add: startsWith_Cons startsWith_Nil)
  have "delimited False ''*'' ''<em>'' ''</em>'' (length (c # cs) + 1) ((c # cs) @ ''*`'')
      = delimited False ''*'' ''<em>'' ''</em>'' 1 ''*`''"
    by (rule delimited_skip)
  then have skip: "delimited False ''*'' ''<em>'' ''</em>'' (Suc (Suc (length cs))) (c # cs @ ''*`'') = ''`''"
    by (simp add: startsWith_Cons startsWith_Nil)
  show ?thesis
    using close skip by (simp add: startsWith_Cons startsWith_Nil)
qed


lemma emphasis_in_code_stage4:
  assumes "plain (c # cs)"
  shows "delimited True ''```'' op cl 0 (''`<em>'' @ (c # cs) @ ''</em>`'')
      = ''`<em>'' @ (c # cs) @ ''</em>`''"
proof -
  have "delimited True ''```'' op cl 0 ((c # cs) @ ''</em>`'')
      = (c # cs) @ delimited True ''```'' op cl 0 ''</em>`''"
    using plain_set(2) [OF assms]
      delimited_copy [where p = "c # cs" and d = "CHR ''`''" and ds = "''``''"]
    by simp
  then show ?thesis
    by (simp add: startsWith_Cons startsWith_Nil)
qed

lemma emphasis_in_code_stage5:
  assumes "plain (c # cs)"
  shows "inline_code 0 (''`<em>'' @ (c # cs) @ ''</em>`'') = ''<code><em>'' @ (c # cs) @ ''</em></code>''"
proof -
  define span where "span = ''<em>'' @ (c # cs) @ ''</em>''"
  have ne: "span \<noteq> []"
    by (simp add: span_def)
  have "\<forall>a \<in> set span. a \<noteq> CHR ''`''"
    using plain_set(2) [OF assms] by (simp add: span_def)
  then have run: "takeWhile (\<lambda>a. a \<noteq> CHR ''`'') (span @ ''`'') = span"
    by (simp add: takeWhile_append2)
  have skip: "inline_code (Suc (length span)) (span @ ''`'') = []"
    using inline_code_skip [of span 1 "''`''"] by simp
  have "inline_code 0 (CHR ''`'' # span @ ''`'') = ''<code>'' @ span @ ''</code>''"
    using ne by (simp add: run skip startsWith_def Let_def)
  then show ?thesis
    by (simp add: span_def)
qed

lemma emphasis_in_code_stage6:
  assumes "plain (c # cs)"
  shows "links 0 (''<code><em>'' @ (c # cs) @ ''</em></code>'') = ''<code><em>'' @ (c # cs) @ ''</em></code>''"
    and "list_items True 0 (''<code><em>'' @ (c # cs) @ ''</em></code>'')
      = ''<code><em>'' @ (c # cs) @ ''</em></code>''"
    and "paragraphs (''<code><em>'' @ (c # cs) @ ''</em></code>'') = ''<code><em>'' @ (c # cs) @ ''</em></code>''"
    and "replace_char_all CHR 0x0A ''<br>'' (''<code><em>'' @ (c # cs) @ ''</em></code>'')
      = ''<code><em>'' @ (c # cs) @ ''</em></code>''"
proof -
  have chars: "\<forall>a \<in> set (''<code><em>'' @ (c # cs) @ ''</em></code>'').
      a \<noteq> CHR ''['' \<and> a \<noteq> CHR 0x0A \<and> \<not> is_LT a"
    using plain_set(3,5,6) [OF assms] by (auto simp: is_LT_def)
  show "links 0 (''<code><em>'' @ (c # cs) @ ''</em></code>'') = ''<code><em>'' @ (c # cs) @ ''</em></code>''"
    using links_copy [of "''<code><em>'' @ (c # cs) @ ''</em></code>''" "[]"] chars by simp
  have "list_items False 0 (''code><em>'' @ (c # cs) @ ''</em></code>'')
      = ''code><em>'' @ (c # cs) @ ''</em></code>''"
    using list_items_copy [of "''code><em>'' @ (c # cs) @ ''</em></code>''" "[]"] chars by simp
  then show "list_items True 0 (''<code><em>'' @ (c # cs) @ ''</em></code>'')
      = ''<code><em>'' @ (c # cs) @ ''</em></code>''"
    by (simp add: is_space_def is_LT_def startsWith_Cons)
  show "paragraphs (''<code><em>'' @ (c # cs) @ ''</em></code>'') = ''<code><em>'' @ (c # cs) @ ''</em></code>''"
    using paragraphs_copy [of "''<code><em>'' @ (c # cs) @ ''</em></code>''" "[]"] chars by simp
  show "replace_char_all CHR 0x0A ''<br>'' (''<code><em>'' @ (c # cs) @ ''</em></code>'')
      = ''<code><em>'' @ (c # cs) @ ''</em></code>''"
    using replace_char_all_copy [of "''<code><em>'' @ (c # cs) @ ''</em></code>''" "CHR 0x0A" "''<br>''" "[]"]
      chars by (simp add: replace_char_all_def)
qed

lemma emphasis_in_code_stage7:
  assumes "plain (c # cs)"
  shows "ul_wrap 0 (''<p><code><em>'' @ (c # cs) @ ''</em></code></p>'')
      = ''<p><code><em>'' @ (c # cs) @ ''</em></code></p>''"
proof -
  have "ul_wrap 0 ((c # cs) @ ''</em></code></p>'') = (c # cs) @ ul_wrap 0 ''</em></code></p>''"
    using plain_set(4) [OF assms] by (rule ul_wrap_copy)
  then show ?thesis
    by (simp add: li_chain.simps li_item_def startsWith_Cons startsWith_Nil)
qed

lemma emphasis_before_inline_code:
  assumes "s \<noteq> []" and "plain s"
  shows "markdownToHtml (''`*'' @ s @ ''*`'') = ''<p><code><em>'' @ s @ ''</em></code></p>''"
proof -
  obtain c cs where s: "s = c # cs"
    using assms(1) by (cases s) auto
  have p: "plain (c # cs)"
    using assms(2) by (simp add: s)
  have h3: "heading ''### '' ''<h3>'' ''</h3>'' True 0 (''`*'' @ (c # cs) @ ''*`'') = ''`*'' @ (c # cs) @ ''*`''"
    and h2: "heading ''## '' ''<h2>'' ''</h2>'' True 0 (''`*'' @ (c # cs) @ ''*`'') = ''`*'' @ (c # cs) @ ''*`''"
    and h1: "heading ''# '' ''<h1>'' ''</h1>'' True 0 (''`*'' @ (c # cs) @ ''*`'') = ''`*'' @ (c # cs) @ ''*`''"
    using emphasis_in_code_stage1 [OF p] by simp_all
  have bi: "delimited False ''***'' ''<strong><em>'' ''</em></strong>'' 0 (''`*'' @ (c # cs) @ ''*`'')
      = ''`*'' @ (c # cs) @ ''*`''"
    using emphasis_in_code_stage2 [OF p, of "''*''"] by simp
  have b: "delimited False ''**'' ''<strong>'' ''</strong>'' 0 (''`*'' @ (c # cs) @ ''*`'')
      = ''`*'' @ (c # cs) @ ''*`''"
    using emphasis_in_code_stage2 [OF p, of "[]"] by simp
  show ?thesis
    unfolding markdownToHtml_def Let_def s h3 h2 h1 bi b
      emphasis_in_code_stage3 [OF p] emphasis_in_code_stage4 [OF p]
      emphasis_in_code_stage5 [OF p] emphasis_in_code_stage6 [OF p]
    using emphasis_in_code_stage7 [OF p] by simp
qed

lemma find_close_copy_all:
  "\<forall>c \<in> set p. c \<noteq> d \<Longrightarrow>
     find_close True (d # ds) (p @ rest) =
       (case find_close True (d # ds) rest of None \<Rightarrow> None | Some x \<Rightarrow> Some (p @ x))"
  by (induction p) (simp_all add: startsWith_Cons split: option.split)

lemma inline_code_copy:
  "\<forall>c \<in> set p. c \<noteq> CHR ''`'' \<Longrightarrow> inline_code 0 (p @ rest) = p @ inline_code 0 rest"
  by (induction p) simp_all

lemma emphasis_in_fence_stage1:
  assumes "plain (c # cs)"
  shows "heading (CHR ''#'' # m) op cl True 0 (''```*'' @ (c # cs) @ ''*```'') = ''```*'' @ (c # cs) @ ''*```''"
proof -
  have "heading (CHR ''#'' # m) op cl False 0 ((c # cs) @ ''*```'')
      = (c # cs) @ heading (CHR ''#'' # m) op cl False 0 ''*```''"
    using plain_set(6) [OF assms] by (rule heading_copy)
  then show ?thesis
    by (simp add: startsWith_Cons is_LT_def)
qed

lemma emphasis_in_fence_stage2:
  assumes "plain (c # cs)"
  shows "delimited False (''**'' @ d') op cl 0 (''```*'' @ (c # cs) @ ''*```'') = ''```*'' @ (c # cs) @ ''*```''"
proof -
  have c: "c \<noteq> CHR ''*''"
    using assms by (simp add: plain_Cons)
  have "delimited False (''**'' @ d') op cl 0 (cs @ ''*```'')
      = cs @ delimited False (''**'' @ d') op cl 0 ''*```''"
    using plain_set(1) [OF assms]
      delimited_copy [where p = cs and d = "CHR ''*''" and ds = "CHR ''*'' # d'"]
    by simp
  then show ?thesis
    using c by (simp add: startsWith_Cons startsWith_Nil)
qed

lemma emphasis_in_fence_stage3:
  assumes "plain (c # cs)"
  shows "delimited False ''*'' ''<em>'' ''</em>'' 0 (''```*'' @ (c # cs) @ ''*```'')
      = ''```<em>'' @ (c # cs) @ ''</em>```''"
proof -
  have "find_close False ''*'' ((c # cs) @ ''*```'') =
      (case find_close False ''*'' ''*```'' of None \<Rightarrow> None | Some x \<Rightarrow> Some ((c # cs) @ x))"
    using plain_set(7) [OF assms] by (rule find_close_copy)
  then have close: "find_close False ''*'' (c # cs @ ''*```'') = Some (c # cs)"
    by (simp add: startsWith_Cons startsWith_Nil)
  have "delimited False ''*'' ''<em>'' ''</em>'' (length (c # cs) + 1) ((c # cs) @ ''*```'')
      = delimited False ''*'' ''<em>'' ''</em>'' 1 ''*```''"
    by (rule delimited_skip)
  then have skip: "delimited False ''*'' ''<em>'' ''</em>'' (Suc (Suc (length cs))) (c # cs @ ''*```'') = ''```''"
    by (simp add: startsWith_Cons startsWith_Nil)
  show ?thesis
    using close skip by (simp add: startsWith_Cons startsWith_Nil)
qed

lemma emphasis_in_fence_stage4:
  assumes "plain (c # cs)"
  shows "delimited True ''```'' ''<pre><code>'' ''</code></pre>'' 0 (''```<em>'' @ (c # cs) @ ''</em>```'')
      = ''<pre><code><em>'' @ (c # cs) @ ''</em></code></pre>''"
proof -
  define span where "span = ''<em>'' @ (c # cs) @ ''</em>''"
  have "\<forall>a \<in> set span. a \<noteq> CHR ''`''"
    using plain_set(2) [OF assms] by (simp add: span_def)
  then have "find_close True ''```'' (span @ ''```'') =
      (case find_close True ''```'' ''```'' of None \<Rightarrow> None | Some x \<Rightarrow> Some (span @ x))"
    by (rule find_close_copy_all)
  then have close: "find_close True ''```'' (span @ ''```'') = Some span"
    by (simp add: startsWith_def)
  have "delimited True ''```'' ''<pre><code>'' ''</code></pre>'' (length span + 3)
        (span @ ''```'') = delimited True ''```'' ''<pre><code>'' ''</code></pre>'' 3 ''```''"
    by (rule delimited_skip)
  then have skip: "delimited True ''```'' ''<pre><code>'' ''</code></pre>'' (3 + length span)
        (span @ ''```'') = []"
    by (simp add: startsWith_def add.commute)
  have "delimited True ''```'' ''<pre><code>'' ''</code></pre>'' 0 (''```'' @ span @ ''```'')
      = ''<pre><code>'' @ span @ ''</code></pre>''"
    by (simp add: close skip startsWith_def)
  then show ?thesis
    by (simp add: span_def)
qed

lemma emphasis_in_fence_stage5:
  assumes "plain (c # cs)"
  shows "inline_code 0 (''<pre><code><em>'' @ (c # cs) @ ''</em></code></pre>'')
      = ''<pre><code><em>'' @ (c # cs) @ ''</em></code></pre>''"
    and "links 0 (''<pre><code><em>'' @ (c # cs) @ ''</em></code></pre>'')
      = ''<pre><code><em>'' @ (c # cs) @ ''</em></code></pre>''"
    and "list_items True 0 (''<pre><code><em>'' @ (c # cs) @ ''</em></code></pre>'')
      = ''<pre><code><em>'' @ (c # cs) @ ''</em></code></pre>''"
    and "paragraphs (''<pre><code><em>'' @ (c # cs) @ ''</em></code></pre>'')
      = ''<pre><code><em>'' @ (c # cs) @ ''</em></code></pre>''"
    and "replace_char_all CHR 0x0A ''<br>'' (''<pre><code><em>'' @ (c # cs) @ ''</em></code></pre>'')
      = ''<pre><code><em>'' @ (c # cs) @ ''</em></code></pre>''"
proof -
  let ?x = "''<pre><code><em>'' @ (c # cs) @ ''</em></code></pre>''"
  have chars: "\<forall>a \<in> set ?x. a \<noteq> CHR ''`'' \<and> a \<noteq> CHR ''['' \<and> a \<noteq> CHR 0x0A \<and> \<not> is_LT a"
    using plain_set(2,3,5,6) [OF assms] by (auto simp: is_LT_def)
  show "inline_code 0 ?x = ?x"
    using inline_code_copy [of ?x "[]"] chars by simp
  show "links 0 ?x = ?x"
    using links_copy [of ?x "[]"] chars by simp
  have "list_items False 0 (''pre><code><em>'' @ (c # cs) @ ''</em></code></pre>'')
      = ''pre><code><em>'' @ (c # cs) @ ''</em></code></pre>''"
    using list_items_copy [of "''pre><code><em>'' @ (c # cs) @ ''</em></code></pre>''" "[]"] chars by simp
  then show "list_items True 0 ?x = ?x"
    by (simp add: is_space_def is_LT_def startsWith_Cons)
  show "paragraphs ?x = ?x"
    using paragraphs_copy [of ?x "[]"] chars by simp
  show "replace_char_all CHR 0x0A ''<br>'' ?x = ?x"
    using replace_char_all_copy [of ?x "CHR 0x0A" "''<br>''" "[]"] chars
    by (simp add: replace_char_all_def)
qed

lemma emphasis_in_fence_stage6:
  assumes "plain (c # cs)"
  shows "ul_wrap 0 (''<p><pre><code><em>'' @ (c # cs) @ ''</em></code></pre></p>'')
      = ''<p><pre><code><em>'' @ (c # cs) @ ''</em></code></pre></p>''"
proof -
  have "ul_wrap 0 ((c # cs) @ ''</em></code></pre></p>'') = (c # cs) @ ul_wrap 0 ''</em></code></pre></p>''"
    using plain_set(4) [OF assms] by (rule ul_wrap_copy)
  then show ?thesis
    by (simp add: li_chain.simps li_item_def startsWith_Cons startsWith_Nil)
qed

lemma emphasis_before_fence:
  assumes "s \<noteq> []" and "plain s"
  shows "markdownToHtml (''```*'' @ s @ ''*```'') = ''<p><pre><code><em>'' @ s @ ''</em></code></pre></p>''"
proof -
  obtain c cs where s: "s = c # cs"
    using assms(1) by (cases s) auto
  have p: "plain (c # cs)"
    using assms(2) by (simp add: s)
  have h3: "heading ''### '' ''<h3>'' ''</h3>'' True 0 (''```*'' @ (c # cs) @ ''*```'') = ''```*'' @ (c # cs) @ ''*```''"
    and h2: "heading ''## '' ''<h2>'' ''</h2>'' True 0 (''```*'' @ (c # cs) @ ''*```'') = ''```*'' @ (c # cs) @ ''*```''"
    and h1: "heading ''# '' ''<h1>'' ''</h1>'' True 0 (''```*'' @ (c # cs) @ ''*```'') = ''```*'' @ (c # cs) @ ''*```''"
    using emphasis_in_fence_stage1 [OF p] by simp_all
  have bi: "delimited False ''***'' ''<strong><em>'' ''</em></strong>'' 0 (''```*'' @ (c # cs) @ ''*```'')
      = ''```*'' @ (c # cs) @ ''*```''"
    using emphasis_in_fence_stage2 [OF p, of "''*''"] by simp
  have b: "delimited False ''**'' ''<strong>'' ''</strong>'' 0 (''```*'' @ (c # cs) @ ''*```'')
      = ''```*'' @ (c # cs) @ ''*```''"
    using emphasis_in_fence_stage2 [OF p, of "[]"] by simp
  show ?thesis
    unfolding markdownToHtml_def Let_def s h3 h2 h1 bi b
      emphasis_in_fence_stage3 [OF p] emphasis_in_fence_stage4 [OF p]
      emphasis_in_fence_stage5 [OF p]
    using emphasis_in_fence_stage6 [OF p] by simp
qed

text \<open>
  C8, as the code has it. The passes for \<open>***\<close>, \<open>**\<close> and \<open>*\<close> run before the passes for
  fenced code and inline code, on the whole text: nothing protects a code span. For every
  non-empty text \<open>s\<close> without asterisk, backtick, opening bracket, \<open><\<close> or line break, the
  emphasised \<open>*s*\<close> inside a backtick span comes out as an \<open>em\<close> element inside the
  \<open>code\<close> element, and inside a fence as an \<open>em\<close> element inside \<open>pre\<close> and \<open>code\<close>; the
  asterisks are consumed.
\<close>

theorem emphasis_before_code:
  assumes "s \<noteq> []" and "plain s"
  shows "markdownToHtml (''`*'' @ s @ ''*`'') = ''<p><code><em>'' @ s @ ''</em></code></p>'' \<and>
         markdownToHtml (''```*'' @ s @ ''*```'')
           = ''<p><pre><code><em>'' @ s @ ''</em></code></pre></p>''"
  using emphasis_before_inline_code [OF assms] emphasis_before_fence [OF assms] by simp

theorem emphasis_before_code_witness:
  "markdownToHtml ''`*bold move*`'' = ''<p><code><em>bold move</em></code></p>'' \<and>
   markdownToHtml ''```*bold move*```'' = ''<p><pre><code><em>bold move</em></code></pre></p>''"
  using emphasis_before_code [of "''bold move''"] by (simp add: plain_def)

text \<open>
  C8 as it is written fails: in \<open>`*a*`\<close> and in a fenced block holding \<open>*a*\<close> the asterisks
  occur only inside the code span, and the output has an \<open>em\<close> element and no asterisk.
\<close>

theorem code_span_emphasis_counterexample:
  "markdownToHtml ''`*a*`'' = ''<p><code><em>a</em></code></p>'' \<and>
   markdownToHtml ''```\<newline>*a*\<newline>```'' = ''<p><pre><code><br><em>a</em><br></code></pre></p>''"
  by (simp add: markdownToHtml_def startsWith_def is_LT_def is_space_def replace_char_all_def
      li_chain.simps li_item_def)

end
